theory Spec2Isabelle
  imports Main
begin

section \<open>Python values and exceptions\<close>

text \<open>
  The travel planner (\<^verbatim>\<open>agents.py\<close>, \<^verbatim>\<open>main.py\<close>, \<^verbatim>\<open>main-two.py\<close>) works on
  dynamically typed values: the text an agent returns, the JSON decoded from it, and
  the preference dictionary. They are embedded as one datatype. A dictionary is an
  association list in insertion order with unique keys; every dictionary met here has
  text keys. A float read from JSON is kept as the decimal it was written as
  (\<open>Dec m e\<close> stands for \<open>m * 10 ^ e\<close>): nothing below depends on its binary64 value
  beyond whether that value is zero.

  Text is a HOL \<^typ>\<open>string\<close>, read as the UTF-8 bytes of the Python \<^verbatim>\<open>str\<close>. The
  whitespace and letter case of the regular expressions that search for JSON are
  modelled on ASCII; the digits of a date are those of Unicode.

  A raised exception is the left summand of a result \<open>py_error + 'a\<close>.
\<close>

datatype py_error =
    TypeError | AttributeError | KeyError | IndexError | ValueError
  | OverflowError | JSONDecodeError | RequestException

datatype pyfloat = Dec int int | NaN | Infinity bool

datatype pyval =
    PNone
  | PBool bool
  | PInt int
  | PFloat pyfloat
  | PStr string
  | PList "pyval list"
  | PDict "(string \<times> pyval) list"

text \<open>
  Truth value of a Python object. A decimal literal becomes the float \<open>0.0\<close> exactly
  when it is zero or its magnitude is at most \<open>2 ^ - 1075\<close>, half the least subnormal.
\<close>

definition float_is_zero :: "pyfloat \<Rightarrow> bool" where
  "float_is_zero f =
     (case f of
        Dec m e \<Rightarrow> m = 0 \<or> (e < 0 \<and> \<bar>m\<bar> * 2 ^ 1075 \<le> 10 ^ nat (- e))
      | NaN \<Rightarrow> False
      | Infinity b \<Rightarrow> False)"

fun truthy :: "pyval \<Rightarrow> bool" where
  "truthy PNone = False"
| "truthy (PBool b) = b"
| "truthy (PInt n) = (n \<noteq> 0)"
| "truthy (PFloat f) = (\<not> float_is_zero f)"
| "truthy (PStr s) = (s \<noteq> [])"
| "truthy (PList xs) = (xs \<noteq> [])"
| "truthy (PDict kvs) = (kvs \<noteq> [])"

text \<open>\<^verbatim>\<open>a or b\<close>.\<close>

definition py_or :: "pyval \<Rightarrow> pyval \<Rightarrow> pyval" where
  "py_or a b = (if truthy a then a else b)"

text \<open>\<^verbatim>\<open>d.get(k, default)\<close> and \<^verbatim>\<open>d[k] = v\<close> on the pairs of a dictionary.\<close>

definition dict_get :: "(string \<times> pyval) list \<Rightarrow> string \<Rightarrow> pyval \<Rightarrow> pyval" where
  "dict_get kvs k dflt = (case map_of kvs k of None \<Rightarrow> dflt | Some v \<Rightarrow> v)"

fun dict_set :: "(string \<times> pyval) list \<Rightarrow> string \<Rightarrow> pyval \<Rightarrow> (string \<times> pyval) list" where
  "dict_set [] k v = [(k, v)]"
| "dict_set (p # ps) k v = (if fst p = k then (k, v) # ps else p # dict_set ps k v)"

section \<open>Preferences\<close>

text \<open>
  The preference dictionary handed to \<^verbatim>\<open>Tripcrew\<close> (\<^verbatim>\<open>Preferences\<close> in
  \<^verbatim>\<open>main-two.py\<close>). Only the fields read by the modelled code are kept; a field that
  is missing and a field that is \<^verbatim>\<open>None\<close> are the same to \<^verbatim>\<open>dict.get\<close>, hence
  \<open>option\<close>. A category range is a pair \<open>(min, max)\<close> or \<^verbatim>\<open>None\<close>.
\<close>

type_synonym budget_ranges = "(string \<times> (int \<times> int) option) list"

record inputs =
  total_budget :: "int option"
  budget_range :: "budget_ranges option"
  start_date :: "string option"
  planning_style :: "string option"

section \<open>Binary64 arithmetic of the budget split\<close>

text \<open>
  \<^verbatim>\<open>int(0.35 * total)\<close> multiplies a binary64 constant by a Python \<^verbatim>\<open>int\<close>: the
  integer is converted to binary64 (round to nearest, ties to even; \<^verbatim>\<open>OverflowError\<close>
  when it is too large), the product is rounded the same way, and \<^verbatim>\<open>int\<close> truncates
  toward zero. A finite binary64 number is written as a pair \<open>(m, e)\<close> standing for
  \<open>m * 2 ^ e\<close>.
\<close>

type_synonym double = "int \<times> int"

fun bit_length :: "nat \<Rightarrow> nat" where
  "bit_length n = (if n = 0 then 0 else Suc (bit_length (n div 2)))"

declare bit_length.simps [simp del]

definition round_half_even :: "nat \<Rightarrow> nat \<Rightarrow> nat" where
  "round_half_even m s =
     (let q = m div 2 ^ s; r = m mod 2 ^ s in
      if 2 * r < 2 ^ s then q
      else if 2 ^ s < 2 * r then q + 1
      else if even q then q else q + 1)"

definition round53 :: "nat \<Rightarrow> int \<Rightarrow> nat \<times> int" where
  "round53 m e = (let s = bit_length m - 53 in (round_half_even m s, e + int s))"

definition float_of_int :: "int \<Rightarrow> py_error + double" where
  "float_of_int n =
     (case round53 (nat \<bar>n\<bar>) 0 of (m, e) \<Rightarrow>
        if 2 ^ 1024 \<le> m * 2 ^ nat e then Inl OverflowError
        else Inr (sgn n * int m, e))"

definition float_mul :: "double \<Rightarrow> double \<Rightarrow> double" where
  "float_mul x y =
     (case x of (mx, ex) \<Rightarrow> case y of (my, ey) \<Rightarrow>
        case round53 (nat \<bar>mx * my\<bar>) (ex + ey) of (m, e) \<Rightarrow>
          (sgn (mx * my) * int m, e))"

definition int_of_float :: "double \<Rightarrow> int" where
  "int_of_float x =
     (case x of (m, e) \<Rightarrow>
        if 0 \<le> e then m * 2 ^ nat e
        else sgn m * (\<bar>m\<bar> div 2 ^ nat (- e)))"

text \<open>The five literals, each the binary64 number nearest to the decimal written.\<close>

definition float_0_25 :: double where "float_0_25 = (1, - 2)"
definition float_0_35 :: double where "float_0_35 = (3152519739159347, - 53)"
definition float_0_45 :: double where "float_0_45 = (8106479329266893, - 54)"
definition float_0_15 :: double where "float_0_15 = (5404319552844595, - 55)"
definition float_0_05 :: double where "float_0_05 = (3602879701896397, - 56)"

text \<open>\<^verbatim>\<open>int(c * total)\<close> for a float literal \<open>c\<close> and an integer \<open>total\<close>.\<close>

definition int_times :: "double \<Rightarrow> int \<Rightarrow> py_error + int" where
  "int_times c tot =
     (case float_of_int tot of
        Inl err \<Rightarrow> Inl err
      | Inr t \<Rightarrow> Inr (int_of_float (float_mul c t)))"

section \<open>Budget auto-split (\<^verbatim>\<open>Tripcrew.__init__\<close>)\<close>

text \<open>
  \<^verbatim>\<open>
  if (not self.inputs.get("budget_range") or
      all(v is None for v in self.inputs.get("budget_range", {}).values())) \
     and self.inputs.get("total_budget"):
      total = self.inputs["total_budget"]
      split = {"transport": (int(0.25 * total), int(0.35 * total)), ...}
      self.inputs["budget_range"] = split
  \<close>
  An absent or empty range dictionary is falsy; a total that is absent or \<open>0\<close> is
  falsy. The tuple elements are evaluated left to right, and the first conversion that
  overflows raises.
\<close>

definition no_usable_ranges :: "budget_ranges option \<Rightarrow> bool" where
  "no_usable_ranges br =
     (case br of
        None \<Rightarrow> True
      | Some rs \<Rightarrow> rs = [] \<or> list_all (\<lambda>kv. snd kv = None) rs)"

definition total_truthy :: "int option \<Rightarrow> bool" where
  "total_truthy t = (case t of None \<Rightarrow> False | Some n \<Rightarrow> n \<noteq> 0)"

definition band :: "double \<Rightarrow> double \<Rightarrow> int \<Rightarrow> py_error + (int \<times> int)" where
  "band lo hi tot =
     (case int_times lo tot of
        Inl err \<Rightarrow> Inl err
      | Inr a \<Rightarrow>
          (case int_times hi tot of
             Inl err \<Rightarrow> Inl err
           | Inr b \<Rightarrow> Inr (a, b)))"

definition split_budget :: "int \<Rightarrow> py_error + budget_ranges" where
  "split_budget tot =
     (case band float_0_25 float_0_35 tot of
        Inl err \<Rightarrow> Inl err
      | Inr tr \<Rightarrow>
     (case band float_0_35 float_0_45 tot of
        Inl err \<Rightarrow> Inl err
      | Inr ac \<Rightarrow>
     (case band float_0_15 float_0_25 tot of
        Inl err \<Rightarrow> Inl err
      | Inr fo \<Rightarrow>
     (case band float_0_05 float_0_15 tot of
        Inl err \<Rightarrow> Inl err
      | Inr en \<Rightarrow>
          Inr [(''transport'', Some tr), (''accommodation'', Some ac),
               (''food'', Some fo), (''entertainment'', Some en)]))))"

definition Tripcrew_init :: "inputs \<Rightarrow> py_error + inputs" where
  "Tripcrew_init inp =
     (if no_usable_ranges (budget_range inp) \<and> total_truthy (total_budget inp)
      then (case total_budget inp of
              None \<Rightarrow> Inr inp
            | Some tot \<Rightarrow>
                (case split_budget tot of
                   Inl err \<Rightarrow> Inl err
                 | Inr split \<Rightarrow> Inr (inp\<lparr>budget_range := Some split\<rparr>)))
      else Inr inp)"

section \<open>Weather gate (\<^verbatim>\<open>Tripcrew.should_show_weather\<close>)\<close>

text \<open>
  \<^verbatim>\<open>datetime.strptime(s, "%Y-%m-%d")\<close> matches a prefix of \<open>s\<close> against
  \<^verbatim>\<open>(\d\d\d\d)-(1[0-2]|0[1-9]|[1-9])-(3[0-1]|[1-2]\d|0[1-9]|[1-9]| [1-9])\<close>,
  raises when text remains after the match, and then builds the date, which raises
  unless the year is at least 1 and the day exists in the month. The alternatives are
  tried in the order written; a later one never succeeds where an earlier one matched
  and the rest failed, so the first match decides.

  The bracketed classes hold ASCII digits. \<^verbatim>\<open>\d\<close> matches every decimal digit of
  the Unicode database (category \<^verbatim>\<open>Nd\<close>), and \<^verbatim>\<open>int\<close> reads each with its decimal
  value: the full-width \<^verbatim>\<open>U+FF12\<close> is a \<open>2\<close>. In Unicode 14.0.0, the database of
  Python 3.11, these digits come in 66 runs of ten, each from its zero upward;
  \<open>decimal_zeros\<close> lists the zeros. \<open>decode_char\<close> reads one code point from the
  UTF-8 bytes of the text.
\<close>

record date =
  year :: nat
  month :: nat
  day :: nat

definition continuation :: "char \<Rightarrow> bool" where
  "continuation c = (128 \<le> (of_char c :: nat) \<and> (of_char c :: nat) < 192)"

definition decode_char :: "string \<Rightarrow> (nat \<times> string) option" where
  "decode_char s =
     (case s of
        [] \<Rightarrow> None
      | a # r \<Rightarrow>
          (let n = (of_char a :: nat) in
           if n < 128 then Some (n, r)
           else if 192 \<le> n \<and> n < 224 then
             (case r of
                b # r2 \<Rightarrow>
                  if continuation b then Some ((n - 192) * 64 + (of_char b - 128), r2) else None
              | _ \<Rightarrow> None)
           else if 224 \<le> n \<and> n < 240 then
             (case r of
                b # c # r3 \<Rightarrow>
                  if continuation b \<and> continuation c
                  then Some (((n - 224) * 64 + (of_char b - 128)) * 64 + (of_char c - 128), r3)
                  else None
              | _ \<Rightarrow> None)
           else if 240 \<le> n \<and> n < 248 then
             (case r of
                b # c # d # r4 \<Rightarrow>
                  if continuation b \<and> continuation c \<and> continuation d
                  then Some ((((n - 240) * 64 + (of_char b - 128)) * 64 + (of_char c - 128)) * 64
                             + (of_char d - 128), r4)
                  else None
              | _ \<Rightarrow> None)
           else None))"

definition decimal_zeros :: "nat list" where
  "decimal_zeros =
     [48, 1632, 1776, 1984, 2406, 2534, 2662, 2790, 2918, 3046, 3174, 3302, 3430, 3558, 3664,
      3792, 3872, 4160, 4240, 6112, 6160, 6470, 6608, 6784, 6800, 6992, 7088, 7232, 7248,
      42528, 43216, 43264, 43472, 43504, 43600, 44016, 65296, 66720, 68912, 69734, 69872,
      69942, 70096, 70384, 70736, 70864, 71248, 71360, 71472, 71904, 72016, 72784, 73040,
      73120, 92768, 92864, 93008, 120782, 120792, 120802, 120812, 120822, 123200, 123632,
      125264, 130032]"

definition decimal :: "nat \<Rightarrow> nat option" where
  "decimal cp = map_option (\<lambda>z. cp - z) (find (\<lambda>z. z \<le> cp \<and> cp < z + 10) decimal_zeros)"

text \<open>\<open>read_digit\<close>: one \<^verbatim>\<open>\d\<close>, giving the digit's value and the text after it.\<close>

definition read_digit :: "string \<Rightarrow> (nat \<times> string) option" where
  "read_digit s =
     (case decode_char s of
        None \<Rightarrow> None
      | Some (cp, r) \<Rightarrow> map_option (\<lambda>v. (v, r)) (decimal cp))"

definition is_digit :: "char \<Rightarrow> bool" where
  "is_digit c = (48 \<le> (of_char c :: nat) \<and> (of_char c :: nat) \<le> 57)"

definition digit_val :: "char \<Rightarrow> nat" where
  "digit_val c = of_char c - 48"

definition parse_year :: "string \<Rightarrow> (nat \<times> string) option" where
  "parse_year s =
     (case read_digit s of
        None \<Rightarrow> None
      | Some (a, r1) \<Rightarrow>
     (case read_digit r1 of
        None \<Rightarrow> None
      | Some (b, r2) \<Rightarrow>
     (case read_digit r2 of
        None \<Rightarrow> None
      | Some (c, r3) \<Rightarrow>
     (case read_digit r3 of
        None \<Rightarrow> None
      | Some (d, rest) \<Rightarrow> Some (1000 * a + 100 * b + 10 * c + d, rest)))))"

definition parse_month :: "string \<Rightarrow> (nat \<times> string) option" where
  "parse_month s =
     (case s of
        [] \<Rightarrow> None
      | a # r \<Rightarrow>
          (case r of
             b # rest \<Rightarrow>
               if a = CHR ''1'' \<and> is_digit b \<and> digit_val b \<le> 2 then Some (10 + digit_val b, rest)
               else if a = CHR ''0'' \<and> is_digit b \<and> 1 \<le> digit_val b then Some (digit_val b, rest)
               else if is_digit a \<and> 1 \<le> digit_val a then Some (digit_val a, r)
               else None
           | [] \<Rightarrow> if is_digit a \<and> 1 \<le> digit_val a then Some (digit_val a, r) else None))"

definition parse_day :: "string \<Rightarrow> (nat \<times> string) option" where
  "parse_day s =
     (case s of
        [] \<Rightarrow> None
      | a # r \<Rightarrow>
          if a = CHR ''3'' \<and> r \<noteq> [] \<and> is_digit (hd r) \<and> digit_val (hd r) \<le> 1
            then Some (30 + digit_val (hd r), tl r)
          else if (a = CHR ''1'' \<or> a = CHR ''2'') \<and> read_digit r \<noteq> None
            then map_option (\<lambda>(v, rest). (10 * digit_val a + v, rest)) (read_digit r)
          else if a = CHR ''0'' \<and> r \<noteq> [] \<and> is_digit (hd r) \<and> 1 \<le> digit_val (hd r)
            then Some (digit_val (hd r), tl r)
          else if is_digit a \<and> 1 \<le> digit_val a then Some (digit_val a, r)
          else if a = CHR '' '' \<and> r \<noteq> [] \<and> is_digit (hd r) \<and> 1 \<le> digit_val (hd r)
            then Some (digit_val (hd r), tl r)
          else None)"

definition is_leap :: "nat \<Rightarrow> bool" where
  "is_leap y = (y mod 4 = 0 \<and> (y mod 100 \<noteq> 0 \<or> y mod 400 = 0))"

definition days_in_month :: "nat \<Rightarrow> nat \<Rightarrow> nat" where
  "days_in_month y m =
     (if m = 2 then (if is_leap y then 29 else 28)
      else if m = 4 \<or> m = 6 \<or> m = 9 \<or> m = 11 then 30 else 31)"

definition days_before_year :: "nat \<Rightarrow> int" where
  "days_before_year y =
     (let z = int y - 1 in z * 365 + z div 4 - z div 100 + z div 400)"

definition days_before_month :: "nat \<Rightarrow> nat \<Rightarrow> int" where
  "days_before_month y m =
     int ([0, 0, 31, 59, 90, 120, 151, 181, 212, 243, 273, 304, 334] ! m)
       + (if 2 < m \<and> is_leap y then 1 else 0)"

definition toordinal :: "date \<Rightarrow> int" where
  "toordinal d = days_before_year (year d) + days_before_month (year d) (month d) + int (day d)"

definition strptime_ymd :: "string \<Rightarrow> date option" where
  "strptime_ymd s =
     (case parse_year s of
        None \<Rightarrow> None
      | Some (y, r1) \<Rightarrow>
     (case r1 of
        [] \<Rightarrow> None
      | c1 # r2 \<Rightarrow>
          if c1 \<noteq> CHR ''-'' then None
          else
     (case parse_month r2 of
        None \<Rightarrow> None
      | Some (m, r3) \<Rightarrow>
     (case r3 of
        [] \<Rightarrow> None
      | c2 # r4 \<Rightarrow>
          if c2 \<noteq> CHR ''-'' then None
          else
     (case parse_day r4 of
        None \<Rightarrow> None
      | Some (d, r5) \<Rightarrow>
          if r5 \<noteq> [] then None
          else if y < 1 \<or> days_in_month y m < d then None
          else Some \<lparr>year = y, month = m, day = d\<rparr>)))))"

text \<open>
  The calendar, to say what a date and \<open>today + k\<close> are: \<open>valid_date\<close> is what
  \<^verbatim>\<open>datetime.date\<close> accepts (its year is also at most 9999), \<open>next_day\<close> is
  \<^verbatim>\<open>d + timedelta(days=1)\<close>, \<open>plus_days d k\<close> is \<^verbatim>\<open>d + timedelta(days=k)\<close>, and
  \<open>isoformat\<close> is \<^verbatim>\<open>d.isoformat()\<close>, the text \<^verbatim>\<open>YYYY-MM-DD\<close> of a date whose year has
  at most four digits.
\<close>

definition valid_date :: "date \<Rightarrow> bool" where
  "valid_date d =
     (1 \<le> year d \<and> 1 \<le> month d \<and> month d \<le> 12
      \<and> 1 \<le> day d \<and> day d \<le> days_in_month (year d) (month d))"

definition next_day :: "date \<Rightarrow> date" where
  "next_day d =
     (if day d < days_in_month (year d) (month d)
        then \<lparr>year = year d, month = month d, day = day d + 1\<rparr>
      else if month d < 12 then \<lparr>year = year d, month = month d + 1, day = 1\<rparr>
      else \<lparr>year = year d + 1, month = 1, day = 1\<rparr>)"

fun plus_days :: "date \<Rightarrow> nat \<Rightarrow> date" where
  "plus_days d 0 = d"
| "plus_days d (Suc k) = plus_days (next_day d) k"

definition digit_char :: "nat \<Rightarrow> char" where
  "digit_char n = ''0123456789'' ! n"

definition isoformat :: "date \<Rightarrow> string" where
  "isoformat d =
     [digit_char (year d div 1000), digit_char (year d div 100 mod 10),
      digit_char (year d div 10 mod 10), digit_char (year d mod 10), CHR ''-'',
      digit_char (month d div 10), digit_char (month d mod 10), CHR ''-'',
      digit_char (day d div 10), digit_char (day d mod 10)]"

text \<open>
  \<^verbatim>\<open>
  if not start_date_str or not planning_style: return False
  try: start_date = datetime.strptime(start_date_str, "%Y-%m-%d").date()
  except Exception: return False
  days_until_trip = (start_date - today).days
  if planning_style == "holiday_based" and 0 <= days_until_trip <= 3: return True
  return False
  \<close>
  \<open>today\<close> is the current UTC date, a parameter of the model.
\<close>

definition should_show_weather :: "date \<Rightarrow> inputs \<Rightarrow> bool" where
  "should_show_weather today inp =
     (case start_date inp of
        None \<Rightarrow> False
      | Some start_date_str \<Rightarrow>
     (case planning_style inp of
        None \<Rightarrow> False
      | Some style \<Rightarrow>
          if start_date_str = [] \<or> style = [] then False
          else
     (case strptime_ymd start_date_str of
        None \<Rightarrow> False
      | Some start \<Rightarrow>
          (let days_until_trip = toordinal start - toordinal today in
           if style = ''holiday_based'' \<and> 0 \<le> days_until_trip \<and> days_until_trip \<le> 3
           then True else False))))"

section \<open>Finding the JSON span in a response\<close>

text \<open>
  Both extractors use the same two regular expressions, searched with
  \<^verbatim>\<open>re.search\<close> (leftmost match) under \<^verbatim>\<open>re.DOTALL\<close>:
  \<^verbatim>\<open>
  ```json\s*(\{.*?\}|\[.*?\])\s*```        the fenced block
  (\{.*\}|\[.*\])                          the bare span
  \<close>
  In the first, \<^verbatim>\<open>\s*\<close> is followed by a character that is not whitespace, so it
  skips all whitespace; the lazy \<^verbatim>\<open>.*?\<close> stops at the first closing bracket that is
  followed by optional whitespace and the closing fence. In the second, the greedy
  \<^verbatim>\<open>.*\<close> runs to the last closing bracket of the text. Group 1 is returned.
\<close>

definition is_space :: "char \<Rightarrow> bool" where
  "is_space c =
     (let n = (of_char c :: nat) in (9 \<le> n \<and> n \<le> 13) \<or> (28 \<le> n \<and> n \<le> 32))"

definition skip_space :: "string \<Rightarrow> string" where
  "skip_space s = dropWhile is_space s"

definition lower_ascii :: "char \<Rightarrow> char" where
  "lower_ascii c =
     (let n = (of_char c :: nat) in if 65 \<le> n \<and> n \<le> 90 then char_of (n + 32) else c)"

text \<open>
  \<open>match_prefix ci p t\<close>: the text \<open>t\<close> starts with the literal \<open>p\<close> (ignoring ASCII
  letter case when \<open>ci\<close>); the result is what follows.
\<close>

fun match_prefix :: "bool \<Rightarrow> string \<Rightarrow> string \<Rightarrow> string option" where
  "match_prefix ci [] t = Some t"
| "match_prefix ci (p # ps) [] = None"
| "match_prefix ci (p # ps) (c # cs) =
     (if c = p \<or> (ci \<and> lower_ascii c = lower_ascii p) then match_prefix ci ps cs else None)"

definition closes_fence :: "string \<Rightarrow> bool" where
  "closes_fence t = (match_prefix False ''```'' (skip_space t) \<noteq> None)"

fun lazy_span :: "char \<Rightarrow> string \<Rightarrow> string option" where
  "lazy_span cl [] = None"
| "lazy_span cl (c # cs) =
     (if c = cl \<and> closes_fence cs then Some [c]
      else map_option ((#) c) (lazy_span cl cs))"

fun greedy_span :: "char \<Rightarrow> string \<Rightarrow> string option" where
  "greedy_span cl [] = None"
| "greedy_span cl (c # cs) =
     (case greedy_span cl cs of
        Some g \<Rightarrow> Some (c # g)
      | None \<Rightarrow> if c = cl then Some [c] else None)"

definition fenced_at :: "bool \<Rightarrow> string \<Rightarrow> string option" where
  "fenced_at ci t =
     (case match_prefix ci ''```json'' t of
        None \<Rightarrow> None
      | Some r \<Rightarrow>
          (case skip_space r of
             [] \<Rightarrow> None
           | c # body \<Rightarrow>
               if c = CHR ''{'' then map_option ((#) c) (lazy_span (CHR ''}'') body)
               else if c = CHR ''['' then map_option ((#) c) (lazy_span (CHR '']'') body)
               else None))"

fun search_fenced :: "bool \<Rightarrow> string \<Rightarrow> string option" where
  "search_fenced ci [] = None"
| "search_fenced ci (c # cs) =
     (case fenced_at ci (c # cs) of
        Some g \<Rightarrow> Some g
      | None \<Rightarrow> search_fenced ci cs)"

definition bare_at :: "string \<Rightarrow> string option" where
  "bare_at t =
     (case t of
        [] \<Rightarrow> None
      | c # body \<Rightarrow>
          if c = CHR ''{'' then map_option ((#) c) (greedy_span (CHR ''}'') body)
          else if c = CHR ''['' then map_option ((#) c) (greedy_span (CHR '']'') body)
          else None)"

fun search_bare :: "string \<Rightarrow> string option" where
  "search_bare [] = None"
| "search_bare (c # cs) =
     (case bare_at (c # cs) of
        Some g \<Rightarrow> Some g
      | None \<Rightarrow> search_bare cs)"

text \<open>
  \<^verbatim>\<open>format_data._extract_json_in_backticks\<close> (\<^verbatim>\<open>agents.py\<close>): the fenced search
  ignores case; the result is the matched text, not yet parsed.
  \<^verbatim>\<open>
  if not isinstance(text, str): return None
  match = re.search(fenced, text, re.DOTALL | re.IGNORECASE)
  if match: return match.group(1)
  alt = re.search(bare, text, re.DOTALL)
  return alt.group(1) if alt else None
  \<close>
\<close>

definition extract_json_in_backticks :: "pyval \<Rightarrow> pyval" where
  "extract_json_in_backticks text =
     (case text of
        PStr s \<Rightarrow>
          (case search_fenced True s of
             Some g \<Rightarrow> PStr g
           | None \<Rightarrow>
               (case search_bare s of
                  Some g \<Rightarrow> PStr g
                | None \<Rightarrow> PNone))
      | _ \<Rightarrow> PNone)"

section \<open>\<^verbatim>\<open>json.loads\<close>\<close>

text \<open>
  The decoder of the standard library, as \<^verbatim>\<open>json/decoder.py\<close> and
  \<^verbatim>\<open>json/scanner.py\<close> define it: objects, arrays, strings with their escapes, numbers,
  \<^verbatim>\<open>true\<close>, \<^verbatim>\<open>false\<close>, \<^verbatim>\<open>null\<close>, and the constants \<^verbatim>\<open>NaN\<close>,
  \<^verbatim>\<open>Infinity\<close>, \<^verbatim>\<open>-Infinity\<close>. On text it returns the value or raises
  \<^verbatim>\<open>JSONDecodeError\<close>; on anything that is not text it raises \<^verbatim>\<open>TypeError\<close>. An
  integer literal is converted by \<^verbatim>\<open>int\<close>, which raises \<^verbatim>\<open>ValueError\<close> (not a
  \<^verbatim>\<open>JSONDecodeError\<close>) when the literal has more digits than
  \<^verbatim>\<open>sys.get_int_max_str_digits()\<close>, 4300 unless configured otherwise. The recursion
  depth of the interpreter, which depends on the stack at the call, is not modelled.
\<close>

datatype scan_error = Malformed | Exhausted | TooManyDigits

definition int_max_str_digits :: nat where
  "int_max_str_digits = 4300"

definition is_json_ws :: "char \<Rightarrow> bool" where
  "is_json_ws c = (c = CHR '' '' \<or> c = CHR 0x09 \<or> c = CHR 0x0A \<or> c = CHR 0x0D)"

definition skip_ws :: "string \<Rightarrow> string" where
  "skip_ws s = dropWhile is_json_ws s"

definition hex_val :: "char \<Rightarrow> nat option" where
  "hex_val c =
     (let n = (of_char c :: nat) in
      if 48 \<le> n \<and> n \<le> 57 then Some (n - 48)
      else if 65 \<le> n \<and> n \<le> 70 then Some (n - 55)
      else if 97 \<le> n \<and> n \<le> 102 then Some (n - 87)
      else None)"

definition hex4 :: "string \<Rightarrow> nat option" where
  "hex4 s =
     (case s of
        a # b # c # d # rest \<Rightarrow>
          (case hex_val a of None \<Rightarrow> None | Some x \<Rightarrow>
          (case hex_val b of None \<Rightarrow> None | Some y \<Rightarrow>
          (case hex_val c of None \<Rightarrow> None | Some z \<Rightarrow>
          (case hex_val d of None \<Rightarrow> None | Some w \<Rightarrow>
             Some (((x * 16 + y) * 16 + z) * 16 + w)))))
      | _ \<Rightarrow> None)"

definition utf8 :: "nat \<Rightarrow> string" where
  "utf8 cp =
     (if cp < 0x80 then [char_of cp]
      else if cp < 0x800 then [char_of (0xC0 + cp div 64), char_of (0x80 + cp mod 64)]
      else if cp < 0x10000 then
        [char_of (0xE0 + cp div 4096), char_of (0x80 + cp div 64 mod 64), char_of (0x80 + cp mod 64)]
      else
        [char_of (0xF0 + cp div 262144), char_of (0x80 + cp div 4096 mod 64),
         char_of (0x80 + cp div 64 mod 64), char_of (0x80 + cp mod 64)])"

definition backslash :: "char \<Rightarrow> char option" where
  "backslash e =
     (if e = CHR 0x22 then Some (CHR 0x22)
      else if e = CHR 0x5C then Some (CHR 0x5C)
      else if e = CHR ''/'' then Some (CHR ''/'')
      else if e = CHR ''b'' then Some (CHR 0x08)
      else if e = CHR ''f'' then Some (CHR 0x0C)
      else if e = CHR ''n'' then Some (CHR 0x0A)
      else if e = CHR ''r'' then Some (CHR 0x0D)
      else if e = CHR ''t'' then Some (CHR 0x09)
      else None)"

definition prepend :: "string \<Rightarrow> (string \<times> string) option \<Rightarrow> (string \<times> string) option" where
  "prepend pre r = (case r of None \<Rightarrow> None | Some (str, rest) \<Rightarrow> Some (pre @ str, rest))"

text \<open>
  \<open>scanstring s\<close> reads a string literal whose opening quote has been consumed and
  returns the decoded string and the text after the closing quote. A literal control
  character is an error; a high surrogate escape followed by a low surrogate escape is
  one code point.
\<close>

function scanstring :: "string \<Rightarrow> (string \<times> string) option" where
  "scanstring [] = None"
| "scanstring (c # cs) =
     (if c = CHR 0x22 then Some ([], cs)
      else if c = CHR 0x5C then
        (case cs of
           [] \<Rightarrow> None
         | e # es \<Rightarrow>
             if e = CHR ''u'' then
               (case hex4 es of
                  None \<Rightarrow> None
                | Some u \<Rightarrow>
                    if 0xD800 \<le> u \<and> u \<le> 0xDBFF \<and> take 2 (drop 4 es) = [CHR 0x5C, CHR ''u''] then
                      (case hex4 (drop 6 es) of
                         None \<Rightarrow> None
                       | Some u2 \<Rightarrow>
                           if 0xDC00 \<le> u2 \<and> u2 \<le> 0xDFFF
                           then prepend (utf8 (0x10000 + (u - 0xD800) * 1024 + (u2 - 0xDC00)))
                                  (scanstring (drop 10 es))
                           else prepend (utf8 u) (scanstring (drop 4 es)))
                    else prepend (utf8 u) (scanstring (drop 4 es)))
             else
               (case backslash e of
                  None \<Rightarrow> None
                | Some ch \<Rightarrow> prepend [ch] (scanstring es)))
      else if (of_char c :: nat) < 32 then None
      else prepend [c] (scanstring cs))"
  by pat_completeness auto
termination
  by (relation "measure length") auto

definition digits_val :: "string \<Rightarrow> nat" where
  "digits_val ds = foldl (\<lambda>a c. 10 * a + digit_val c) 0 ds"

text \<open>
  The number pattern \<^verbatim>\<open>(-?(?:0|[1-9]\d*))(\.\d+)?([eE][-+]?\d+)?\<close>. The three
  helpers return the digits matched and the text that follows.
\<close>

definition scan_int_part :: "string \<Rightarrow> (string \<times> string) option" where
  "scan_int_part s =
     (case s of
        [] \<Rightarrow> None
      | c # cs \<Rightarrow>
          if c = CHR ''0'' then Some ([c], cs)
          else if is_digit c then Some (c # takeWhile is_digit cs, dropWhile is_digit cs)
          else None)"

definition scan_frac :: "string \<Rightarrow> string \<times> string" where
  "scan_frac s =
     (case s of
        [] \<Rightarrow> ([], s)
      | c # cs \<Rightarrow>
          if c = CHR ''.'' \<and> cs \<noteq> [] \<and> is_digit (hd cs)
          then (takeWhile is_digit cs, dropWhile is_digit cs)
          else ([], s))"

definition scan_exp :: "string \<Rightarrow> (int \<times> string) option" where
  "scan_exp s =
     (case s of
        [] \<Rightarrow> None
      | c # cs \<Rightarrow>
          if c = CHR ''e'' \<or> c = CHR ''E'' then
            (let neg = (cs \<noteq> [] \<and> hd cs = CHR ''-'');
                 ds = (if cs \<noteq> [] \<and> (hd cs = CHR ''-'' \<or> hd cs = CHR ''+'') then tl cs else cs)
             in if ds \<noteq> [] \<and> is_digit (hd ds)
                then Some ((if neg then - 1 else 1) * int (digits_val (takeWhile is_digit ds)),
                           dropWhile is_digit ds)
                else None)
          else None)"

definition scan_number :: "string \<Rightarrow> scan_error + (pyval \<times> string)" where
  "scan_number s =
     (let neg = (s \<noteq> [] \<and> hd s = CHR ''-'');
          s1 = (if neg then tl s else s);
          sg = (if neg then - 1 else 1 :: int)
      in case scan_int_part s1 of
           None \<Rightarrow> Inl Malformed
         | Some (ip, s2) \<Rightarrow>
             (case scan_frac s2 of (fr, s3) \<Rightarrow>
                (case scan_exp s3 of
                   None \<Rightarrow>
                     if fr = [] then
                       (if int_max_str_digits < length ip then Inl TooManyDigits
                        else Inr (PInt (sg * int (digits_val ip)), s3))
                     else Inr (PFloat (Dec (sg * int (digits_val (ip @ fr))) (- int (length fr))), s3)
                 | Some (ex, s4) \<Rightarrow>
                     Inr (PFloat (Dec (sg * int (digits_val (ip @ fr))) (ex - int (length fr))), s4))))"

text \<open>
  \<open>scan_atom\<close>: the branches of \<^verbatim>\<open>_scan_once\<close> that do not recurse, in its order:
  string, \<^verbatim>\<open>null\<close>, \<^verbatim>\<open>true\<close>, \<^verbatim>\<open>false\<close>, number, \<^verbatim>\<open>NaN\<close>,
  \<^verbatim>\<open>Infinity\<close>, \<^verbatim>\<open>-Infinity\<close>. A number whose conversion raises ends the scan.
\<close>

definition literal :: "string \<Rightarrow> pyval \<Rightarrow> string \<Rightarrow> (pyval \<times> string) option" where
  "literal word v s = map_option (Pair v) (match_prefix False word s)"

definition scan_constant :: "string \<Rightarrow> scan_error + (pyval \<times> string)" where
  "scan_constant s =
     (case literal ''NaN'' (PFloat NaN) s of
        Some r \<Rightarrow> Inr r
      | None \<Rightarrow>
          (case literal ''Infinity'' (PFloat (Infinity True)) s of
             Some r \<Rightarrow> Inr r
           | None \<Rightarrow>
               (case literal ''-Infinity'' (PFloat (Infinity False)) s of
                  Some r \<Rightarrow> Inr r
                | None \<Rightarrow> Inl Malformed)))"

definition scan_atom :: "string \<Rightarrow> scan_error + (pyval \<times> string)" where
  "scan_atom s =
     (case s of
        [] \<Rightarrow> Inl Malformed
      | c # cs \<Rightarrow>
          if c = CHR 0x22 then
            (case scanstring cs of
               None \<Rightarrow> Inl Malformed
             | Some (str, rest) \<Rightarrow> Inr (PStr str, rest))
          else
            (case literal ''null'' PNone s of
               Some r \<Rightarrow> Inr r
             | None \<Rightarrow>
                 (case literal ''true'' (PBool True) s of
                    Some r \<Rightarrow> Inr r
                  | None \<Rightarrow>
                      (case literal ''false'' (PBool False) s of
                         Some r \<Rightarrow> Inr r
                       | None \<Rightarrow>
                           (case scan_number s of
                              Inr r \<Rightarrow> Inr r
                            | Inl err \<Rightarrow>
                                if err = TooManyDigits then Inl err else scan_constant s)))))"

text \<open>
  \<open>scan_once\<close> (\<^verbatim>\<open>_scan_once\<close>), \<open>scan_array\<close> (the loop of \<^verbatim>\<open>JSONArray\<close>, at the
  start of an element) and \<open>scan_object\<close> (the loop of \<^verbatim>\<open>JSONObject\<close>, just after the
  opening quote of a key). The recursion of the three is bounded by a counter that
  every call decrements; \<open>json_loads\<close> starts it high enough that it never runs out
  (lemma \<open>json_loads_fuel\<close> below). \<^verbatim>\<open>dict(pairs)\<close> keeps the first position and the
  last value of a repeated key.
\<close>

fun scan_once :: "nat \<Rightarrow> string \<Rightarrow> scan_error + (pyval \<times> string)"
and scan_array :: "nat \<Rightarrow> pyval list \<Rightarrow> string \<Rightarrow> scan_error + (pyval \<times> string)"
and scan_object :: "nat \<Rightarrow> (string \<times> pyval) list \<Rightarrow> string \<Rightarrow> scan_error + (pyval \<times> string)"
where
  "scan_once 0 s = Inl Exhausted"
| "scan_once (Suc n) s =
     (case s of
        [] \<Rightarrow> Inl Malformed
      | c # cs \<Rightarrow>
          if c = CHR ''{'' then
            (case skip_ws cs of
               [] \<Rightarrow> Inl Malformed
             | q # qs \<Rightarrow>
                 if q = CHR ''}'' then Inr (PDict [], qs)
                 else if q = CHR 0x22 then scan_object n [] qs
                 else Inl Malformed)
          else if c = CHR ''['' then
            (case skip_ws cs of
               [] \<Rightarrow> Inl Malformed
             | q # qs \<Rightarrow>
                 if q = CHR '']'' then Inr (PList [], qs)
                 else scan_array n [] (q # qs))
          else scan_atom s)"
| "scan_array 0 acc s = Inl Exhausted"
| "scan_array (Suc n) acc s =
     (case scan_once n s of
        Inl err \<Rightarrow> Inl err
      | Inr (v, r) \<Rightarrow>
          (case skip_ws r of
             [] \<Rightarrow> Inl Malformed
           | c # cs \<Rightarrow>
               if c = CHR '']'' then Inr (PList (acc @ [v]), cs)
               else if c = CHR '','' then scan_array n (acc @ [v]) (skip_ws cs)
               else Inl Malformed))"
| "scan_object 0 acc s = Inl Exhausted"
| "scan_object (Suc n) acc s =
     (case scanstring s of
        None \<Rightarrow> Inl Malformed
      | Some (key, r) \<Rightarrow>
          (case skip_ws r of
             [] \<Rightarrow> Inl Malformed
           | c # cs \<Rightarrow>
               if c \<noteq> CHR '':'' then Inl Malformed
               else
                 (case scan_once n (skip_ws cs) of
                    Inl err \<Rightarrow> Inl err
                  | Inr (v, r2) \<Rightarrow>
                      (case skip_ws r2 of
                         [] \<Rightarrow> Inl Malformed
                       | d # ds \<Rightarrow>
                           if d = CHR ''}'' then Inr (PDict (dict_set acc key v), ds)
                           else if d = CHR '','' then
                             (case skip_ws ds of
                                [] \<Rightarrow> Inl Malformed
                              | q # qs \<Rightarrow>
                                  if q = CHR 0x22 then scan_object n (dict_set acc key v) qs
                                  else Inl Malformed)
                           else Inl Malformed))))"

definition json_loads :: "pyval \<Rightarrow> py_error + pyval" where
  "json_loads x =
     (case x of
        PStr s \<Rightarrow>
          (case scan_once (2 * length s + 1) (skip_ws s) of
             Inl err \<Rightarrow> if err = TooManyDigits then Inl ValueError else Inl JSONDecodeError
           | Inr (v, rest) \<Rightarrow> if skip_ws rest = [] then Inr v else Inl JSONDecodeError)
      | _ \<Rightarrow> Inl TypeError)"

section \<open>The parsing extractor (\<^verbatim>\<open>_parse_json_blocks\<close>, \<^verbatim>\<open>main.py\<close>)\<close>

text \<open>
  \<^verbatim>\<open>
  if isinstance(text, (list, dict)): return text
  if not isinstance(text, str): return None
  m = re.search(fenced, text, flags=re.DOTALL)
  if m:
      try: return json.loads(m.group(1))
      except json.JSONDecodeError: pass
  m2 = re.search(bare, text, flags=re.DOTALL)
  if m2:
      try: return json.loads(m2.group(1))
      except json.JSONDecodeError: pass
  return None
  \<close>
  Only \<^verbatim>\<open>JSONDecodeError\<close> is caught; any other exception of the decoder
  escapes. \<open>try_loads\<close> is one \<^verbatim>\<open>try\<close> block: \<open>Inr None\<close> stands for \<^verbatim>\<open>pass\<close>.
\<close>

definition try_loads :: "string \<Rightarrow> py_error + pyval option" where
  "try_loads candidate =
     (case json_loads (PStr candidate) of
        Inr v \<Rightarrow> Inr (Some v)
      | Inl err \<Rightarrow> if err = JSONDecodeError then Inr None else Inl err)"

definition parse_bare :: "string \<Rightarrow> py_error + pyval" where
  "parse_bare s =
     (case search_bare s of
        None \<Rightarrow> Inr PNone
      | Some candidate \<Rightarrow>
          (case try_loads candidate of
             Inl err \<Rightarrow> Inl err
           | Inr (Some v) \<Rightarrow> Inr v
           | Inr None \<Rightarrow> Inr PNone))"

definition parse_json_blocks :: "pyval \<Rightarrow> py_error + pyval" where
  "parse_json_blocks text =
     (case text of
        PList xs \<Rightarrow> Inr text
      | PDict kvs \<Rightarrow> Inr text
      | PStr s \<Rightarrow>
          (case search_fenced False s of
             None \<Rightarrow> parse_bare s
           | Some candidate \<Rightarrow>
               (case try_loads candidate of
                  Inl err \<Rightarrow> Inl err
                | Inr (Some v) \<Rightarrow> Inr v
                | Inr None \<Rightarrow> parse_bare s))
      | _ \<Rightarrow> Inr PNone)"

text \<open>
  Two predicates for what the extractor finds and returns. \<open>structured v\<close> is the test
  \<^verbatim>\<open>isinstance(v, (list, dict))\<close>; \<open>opens g\<close> says that the text \<open>g\<close> starts with an
  opening brace or bracket, as every span matched by the two patterns does.
\<close>

definition structured :: "pyval \<Rightarrow> bool" where
  "structured v = (case v of PList xs \<Rightarrow> True | PDict kvs \<Rightarrow> True | _ \<Rightarrow> False)"

definition opens :: "string \<Rightarrow> bool" where
  "opens g = (case g of [] \<Rightarrow> False | c # cs \<Rightarrow> c = CHR ''{'' \<or> c = CHR ''['')"

section \<open>Normalizers (\<^verbatim>\<open>format_data\<close>, \<^verbatim>\<open>agents.py\<close>)\<close>

text \<open>
  \<^verbatim>\<open>for item in places\<close> iterates a list over its elements, a dictionary over its
  keys and a text over its characters; anything else raises \<^verbatim>\<open>TypeError\<close>.
  \<^verbatim>\<open>item.get\<close> exists on dictionaries only: on any other value it raises
  \<^verbatim>\<open>AttributeError\<close>.
\<close>

definition py_iter :: "pyval \<Rightarrow> py_error + pyval list" where
  "py_iter v =
     (case v of
        PList xs \<Rightarrow> Inr xs
      | PDict kvs \<Rightarrow> Inr (map (\<lambda>kv. PStr (fst kv)) kvs)
      | PStr s \<Rightarrow> Inr (map (\<lambda>c. PStr [c]) s)
      | _ \<Rightarrow> Inl TypeError)"

text \<open>The keys of the record \<^verbatim>\<open>format_city_suggestions\<close> builds, in its order.\<close>

definition city_keys :: "string list" where
  "city_keys =
     [''place'', ''reason'', ''weather_suitability'', ''travel_cost_estimate'',
      ''accommodation_range'', ''safety_rating'', ''accessibility'', ''permit_required'',
      ''photos'']"

definition format_place :: "pyval \<Rightarrow> py_error + pyval" where
  "format_place item =
     (case item of
        PDict kvs \<Rightarrow>
          Inr (PDict
            [(''place'', dict_get kvs ''place'' (PStr ''Unknown'')),
             (''reason'', dict_get kvs ''reason'' (PStr ''No reason provided.'')),
             (''weather_suitability'', dict_get kvs ''weather_suitability'' (PStr [CHR 0xE2, CHR 0x80, CHR 0x94])),
             (''travel_cost_estimate'', dict_get kvs ''travel_cost_estimate'' (PDict [])),
             (''accommodation_range'', dict_get kvs ''accommodation_range'' (PStr [CHR 0xE2, CHR 0x80, CHR 0x94])),
             (''safety_rating'', dict_get kvs ''safety_rating'' (PStr [CHR 0xE2, CHR 0x80, CHR 0x94])),
             (''accessibility'', dict_get kvs ''accessibility'' (PStr [CHR 0xE2, CHR 0x80, CHR 0x94])),
             (''permit_required'', dict_get kvs ''permit_required'' (PStr [CHR 0xE2, CHR 0x80, CHR 0x94])),
             (''photos'', dict_get kvs ''photos'' (PList []))])
      | _ \<Rightarrow> Inl AttributeError)"

text \<open>The loop appending one formatted record per item; the first exception ends it.\<close>

fun format_places :: "pyval list \<Rightarrow> py_error + pyval list" where
  "format_places [] = Inr []"
| "format_places (item # items) =
     (case format_place item of
        Inl err \<Rightarrow> Inl err
      | Inr rec \<Rightarrow>
          (case format_places items of
             Inl err \<Rightarrow> Inl err
           | Inr rest \<Rightarrow> Inr (rec # rest)))"

text \<open>
  \<^verbatim>\<open>
  if isinstance(places_data, list): places = places_data
  else:
      raw = self._extract_json_in_backticks(places_data) or places_data
      try: places = json.loads(raw)
      except Exception: return []
  formatted = []
  for item in places: formatted.append({"place": item.get("place", "Unknown"), ...})
  return formatted
  \<close>
\<close>

definition format_city_suggestions :: "pyval \<Rightarrow> py_error + pyval" where
  "format_city_suggestions places_data =
     (case places_data of
        PList xs \<Rightarrow> map_sum id PList (format_places xs)
      | _ \<Rightarrow>
          (case json_loads (py_or (extract_json_in_backticks places_data) places_data) of
             Inl err \<Rightarrow> Inr (PList [])
           | Inr places \<Rightarrow>
               (case py_iter places of
                  Inl err \<Rightarrow> Inl err
                | Inr items \<Rightarrow> map_sum id PList (format_places items))))"

text \<open>
  \<^verbatim>\<open>
  raw = self._extract_json_in_backticks(local_output) or local_output
  try: data = json.loads(raw) if isinstance(raw, str) else (raw or {})
  except Exception: return {}
  return {"top_attractions": data.get("top_attractions", []) if isinstance(..., list) else [],
          "local_cuisine": data.get("local_cuisine", []) if isinstance(..., list) else []}
  \<close>
\<close>

definition list_or_empty :: "pyval \<Rightarrow> pyval" where
  "list_or_empty v = (case v of PList xs \<Rightarrow> v | _ \<Rightarrow> PList [])"

definition local_record :: "pyval \<Rightarrow> py_error + pyval" where
  "local_record data =
     (case data of
        PDict kvs \<Rightarrow>
          Inr (PDict
            [(''top_attractions'', list_or_empty (dict_get kvs ''top_attractions'' (PList []))),
             (''local_cuisine'', list_or_empty (dict_get kvs ''local_cuisine'' (PList [])))])
      | _ \<Rightarrow> Inl AttributeError)"

definition format_local_expertise :: "pyval \<Rightarrow> py_error + pyval" where
  "format_local_expertise local_output =
     (let raw = py_or (extract_json_in_backticks local_output) local_output in
      case raw of
        PStr s \<Rightarrow>
          (case json_loads raw of
             Inl err \<Rightarrow> Inr (PDict [])
           | Inr data \<Rightarrow> local_record data)
      | _ \<Rightarrow> local_record (py_or raw (PDict [])))"

text \<open>
  \<^verbatim>\<open>
  if isinstance(schedule_json, dict): return schedule_json
  raw = self._extract_json_in_backticks(schedule_json) or (schedule_json or "")
  try: return json.loads(raw)
  except Exception: return {"error": "Invalid JSON format received from the model."}
  \<close>
\<close>

definition format_trip_schedule :: "pyval \<Rightarrow> pyval" where
  "format_trip_schedule schedule_json =
     (case schedule_json of
        PDict kvs \<Rightarrow> schedule_json
      | _ \<Rightarrow>
          (case json_loads (py_or (extract_json_in_backticks schedule_json)
                                  (py_or schedule_json (PStr []))) of
             Inl err \<Rightarrow> PDict [(''error'', PStr ''Invalid JSON format received from the model.'')]
           | Inr v \<Rightarrow> v))"

text \<open>
  The six remaining normalizers have one body:
  \<^verbatim>\<open>
  js = self._extract_json_in_backticks(raw) or raw
  try: return json.loads(js)
  except Exception: return {}
  \<close>
\<close>

definition loads_or_empty :: "pyval \<Rightarrow> pyval" where
  "loads_or_empty raw =
     (case json_loads (py_or (extract_json_in_backticks raw) raw) of
        Inl err \<Rightarrow> PDict []
      | Inr v \<Rightarrow> v)"

definition format_safety_info :: "pyval \<Rightarrow> pyval" where
  "format_safety_info raw = loads_or_empty raw"

definition format_packing_list :: "pyval \<Rightarrow> pyval" where
  "format_packing_list raw = loads_or_empty raw"

definition format_budget_breakdown :: "pyval \<Rightarrow> pyval" where
  "format_budget_breakdown raw = loads_or_empty raw"

definition format_transport_options :: "pyval \<Rightarrow> pyval" where
  "format_transport_options raw = loads_or_empty raw"

definition format_accommodation_suggestions :: "pyval \<Rightarrow> pyval" where
  "format_accommodation_suggestions raw = loads_or_empty raw"

definition format_reviews :: "pyval \<Rightarrow> pyval" where
  "format_reviews raw = loads_or_empty raw"

section \<open>Live weather in the city-selection stage (\<^verbatim>\<open>Tripcrew.run\<close>)\<close>

text \<open>
  Reading the snapshot from the decoded body. Subscripting with a text key works on
  dictionaries (\<^verbatim>\<open>KeyError\<close> when the key is missing); subscripting with \<open>0\<close> works
  on lists and texts (\<^verbatim>\<open>IndexError\<close> when empty); a dictionary read from JSON has no
  key \<open>0\<close>.
\<close>

definition getitem :: "pyval \<Rightarrow> string \<Rightarrow> py_error + pyval" where
  "getitem v k =
     (case v of
        PDict kvs \<Rightarrow> (case map_of kvs k of None \<Rightarrow> Inl KeyError | Some x \<Rightarrow> Inr x)
      | _ \<Rightarrow> Inl TypeError)"

definition getitem0 :: "pyval \<Rightarrow> py_error + pyval" where
  "getitem0 v =
     (case v of
        PList xs \<Rightarrow> (case xs of [] \<Rightarrow> Inl IndexError | x # rest \<Rightarrow> Inr x)
      | PStr s \<Rightarrow> (case s of [] \<Rightarrow> Inl IndexError | c # rest \<Rightarrow> Inr (PStr [c]))
      | PDict kvs \<Rightarrow> Inl KeyError
      | _ \<Rightarrow> Inl TypeError)"

definition bind :: "py_error + 'a \<Rightarrow> ('a \<Rightarrow> py_error + 'b) \<Rightarrow> py_error + 'b" where
  "bind r f = (case r of Inl err \<Rightarrow> Inl err | Inr v \<Rightarrow> f v)"

definition weather_snapshot :: "pyval \<Rightarrow> py_error + pyval" where
  "weather_snapshot data =
     bind (bind (getitem data ''main'') (\<lambda>m. getitem m ''temp'')) (\<lambda>temp.
     bind (bind (bind (getitem data ''weather'') getitem0) (\<lambda>w. getitem w ''description'')) (\<lambda>descr.
     bind (bind (getitem data ''main'') (\<lambda>m. getitem m ''humidity'')) (\<lambda>hum.
     bind (bind (getitem data ''wind'') (\<lambda>w. getitem w ''speed'')) (\<lambda>wind.
       Inr (PDict [(''temperature'', temp), (''description'', descr),
                   (''humidity'', hum), (''wind_speed'', wind)])))))"

text \<open>
  \<^verbatim>\<open>
  if not OPENWEATHER_API_KEY: return None
  try:
      url = (f"[http://api.openweathermap.org/data/2.5/weather?q=](http://api.openweathermap.org/data/2.5/weather?q=){city_name}"
             f"&appid={OPENWEATHER_API_KEY}&units=metric")
      response = requests.get(url, timeout=5)
      response.raise_for_status()
      data = response.json()
      return {"temperature": data["main"]["temp"], ...}
  except Exception as e: return None
  \<close>
  \<open>api_key\<close> is \<^verbatim>\<open>os.getenv("OPENWEATHER_API_KEY")\<close>, absent or a text. The f-string
  puts \<^verbatim>\<open>str(city_name)\<close> into the URL: a text as it is, any other value as
  \<open>str_of\<close> renders it, a parameter of the model. \<^verbatim>\<open>requests.get\<close> removes leading
  whitespace from the URL and picks the connection adapter by its prefix, \<^verbatim>\<open>http://\<close>
  or \<^verbatim>\<open>https://\<close> whatever the letter case; with neither prefix it raises
  \<^verbatim>\<open>InvalidSchema\<close>, a \<^verbatim>\<open>RequestException\<close>, before anything is sent. For a URL with
  one of the prefixes, \<open>http_get_json url\<close> is what the library, the network,
  \<^verbatim>\<open>raise_for_status()\<close> and \<^verbatim>\<open>.json()\<close> give: a decoded body or an exception.
\<close>

definition weather_url :: "string \<Rightarrow> string \<Rightarrow> string" where
  "weather_url city key =
     ''[http://api.openweathermap.org/data/2.5/weather?q=](http://api.openweathermap.org/data/2.5/weather?q=)''
       @ city @ ''&appid='' @ key @ ''&units=metric''"

definition requests_get :: "(string \<Rightarrow> py_error + pyval) \<Rightarrow> string \<Rightarrow> py_error + pyval" where
  "requests_get http_get_json url =
     (let u = skip_space url in
      if match_prefix True ''http://'' u = None \<and> match_prefix True ''https://'' u = None
      then Inl RequestException
      else http_get_json u)"

definition format_name :: "(pyval \<Rightarrow> string) \<Rightarrow> pyval \<Rightarrow> string" where
  "format_name str_of v = (case v of PStr s \<Rightarrow> s | _ \<Rightarrow> str_of v)"

definition get_current_weather ::
  "string option \<Rightarrow> (pyval \<Rightarrow> string) \<Rightarrow> (string \<Rightarrow> py_error + pyval) \<Rightarrow> pyval \<Rightarrow> pyval" where
  "get_current_weather api_key str_of http_get_json city_name =
     (case api_key of
        None \<Rightarrow> PNone
      | Some key \<Rightarrow>
          if key = [] then PNone
          else
            (case bind (requests_get http_get_json (weather_url (format_name str_of city_name) key))
                       weather_snapshot of
               Inl err \<Rightarrow> PNone
             | Inr snapshot \<Rightarrow> snapshot))"

text \<open>
  For the examples: a weather service that cannot be reached (the request raises for
  every URL), and a rendering for names that are all text.
\<close>

definition service_down :: "string \<Rightarrow> py_error + pyval" where
  "service_down url = Inl RequestException"

definition text_only :: "pyval \<Rightarrow> string" where
  "text_only v = (case v of PStr s \<Rightarrow> s | _ \<Rightarrow> [])"

text \<open>
  \<^verbatim>\<open>
  city_name = place.get("place")
  if city_name:
      weather = self.get_current_weather(city_name)
      place["weather"] = weather if weather else {}
  \<close>
  Every \<open>place\<close> here is a record built by \<open>format_place\<close>, a dictionary.
\<close>

definition attach_weather ::
  "string option \<Rightarrow> (pyval \<Rightarrow> string) \<Rightarrow> (string \<Rightarrow> py_error + pyval) \<Rightarrow> pyval
     \<Rightarrow> py_error + pyval" where
  "attach_weather api_key str_of http_get_json place =
     (case place of
        PDict kvs \<Rightarrow>
          (let city_name = dict_get kvs ''place'' PNone in
           if truthy city_name then
             (let weather = get_current_weather api_key str_of http_get_json city_name in
              Inr (PDict (dict_set kvs ''weather'' (if truthy weather then weather else PDict []))))
           else Inr place)
      | _ \<Rightarrow> Inl AttributeError)"

fun attach_all ::
  "string option \<Rightarrow> (pyval \<Rightarrow> string) \<Rightarrow> (string \<Rightarrow> py_error + pyval) \<Rightarrow> pyval list
     \<Rightarrow> py_error + pyval list" where
  "attach_all api_key str_of http_get_json [] = Inr []"
| "attach_all api_key str_of http_get_json (place # places) =
     (case attach_weather api_key str_of http_get_json place of
        Inl err \<Rightarrow> Inl err
      | Inr p \<Rightarrow>
          (case attach_all api_key str_of http_get_json places of
             Inl err \<Rightarrow> Inl err
           | Inr ps \<Rightarrow> Inr (p # ps)))"

text \<open>
  \<open>Tripcrew_run\<close>: the part of \<^verbatim>\<open>Tripcrew.run\<close> after the crew has returned its raw
  text \<open>task_output\<close>: format the suggestions, then, when the weather gate holds, look
  the weather up for each of them.
\<close>

definition Tripcrew_run ::
  "date \<Rightarrow> string option \<Rightarrow> (pyval \<Rightarrow> string) \<Rightarrow> (string \<Rightarrow> py_error + pyval)
     \<Rightarrow> inputs \<Rightarrow> pyval \<Rightarrow> py_error + pyval" where
  "Tripcrew_run today api_key str_of http_get_json inp task_output =
     (case format_city_suggestions task_output of
        Inl err \<Rightarrow> Inl err
      | Inr formatted_places \<Rightarrow>
          if should_show_weather today inp then
            (case formatted_places of
               PList places \<Rightarrow> map_sum id PList (attach_all api_key str_of http_get_json places)
             | _ \<Rightarrow> Inl TypeError)
          else Inr formatted_places)"

section \<open>Wizard: leaving the local-insights stage (\<^verbatim>\<open>step2_local_insights\<close>, \<^verbatim>\<open>main.py\<close>)\<close>

text \<open>
  The session state of the wizard, with the slots this stage reads and writes.
  \<^verbatim>\<open>
  can_continue = bool(selected_attractions or selected_cuisines)
  if col2.button("Continue to Itinerary", disabled=not can_continue):
      schedule_json = planner.run_schedule_trip(...)
      st.session_state.itinerary = format_data().format_trip_schedule(schedule_json)
      st.session_state.step = 3
  \<close>
  A disabled button never reports a click, so a click while \<open>can_continue\<close> is false
  changes nothing. \<open>schedule_json\<close> is what the crew returned for the itinerary.
\<close>

record session_state =
  step :: nat
  selected_attractions :: "pyval list"
  selected_cuisines :: "pyval list"
  itinerary :: pyval

definition can_continue :: "session_state \<Rightarrow> bool" where
  "can_continue st = truthy (py_or (PList (selected_attractions st)) (PList (selected_cuisines st)))"

definition continue_to_itinerary :: "session_state \<Rightarrow> pyval \<Rightarrow> session_state" where
  "continue_to_itinerary st schedule_json =
     (if can_continue st
      then st\<lparr>itinerary := format_trip_schedule schedule_json, step := 3\<rparr>
      else st)"

section \<open>Budget: supplied ranges win\<close>

lemma usable_ranges:
  assumes "(k, Some r) \<in> set rs"
  shows "\<not> no_usable_ranges (Some rs)"
proof -
  from assms have "rs \<noteq> []" by auto
  moreover from assms have "\<not> list_all (\<lambda>kv. snd kv = None) rs"
    by (force simp: list_all_iff)
  ultimately show ?thesis by (simp add: no_usable_ranges_def)
qed

text \<open>
  C3. Whenever the range dictionary holds a range for some category, whatever the total
  is, the constructor leaves the preferences as they are: the supplied ranges are
  returned unchanged and no split is computed.
\<close>

theorem supplied_ranges_unchanged:
  assumes "budget_range inp = Some rs" and "(k, Some r) \<in> set rs"
  shows "Tripcrew_init inp = Inr inp"
  using assms usable_ranges [of k r rs] by (simp add: Tripcrew_init_def)

theorem supplied_ranges_unchanged_witness:
  "Tripcrew_init
     \<lparr>total_budget = Some 60000,
      budget_range = Some [(''transport'', Some (6000, 12000)), (''accommodation'', None),
                           (''food'', None), (''entertainment'', None)],
      start_date = None, planning_style = None\<rparr>
   = Inr \<lparr>total_budget = Some 60000,
      budget_range = Some [(''transport'', Some (6000, 12000)), (''accommodation'', None),
                           (''food'', None), (''entertainment'', None)],
      start_date = None, planning_style = None\<rparr>"
  using supplied_ranges_unchanged
          [of "\<lparr>total_budget = Some 60000,
                budget_range = Some [(''transport'', Some (6000, 12000)), (''accommodation'', None),
                                     (''food'', None), (''entertainment'', None)],
                start_date = None, planning_style = None\<rparr>"
              "[(''transport'', Some (6000, 12000)), (''accommodation'', None),
                (''food'', None), (''entertainment'', None)]"
              "''transport''" "(6000, 12000)"]
  by simp

section \<open>Wizard guard\<close>

lemma can_continue_iff:
  "can_continue st \<longleftrightarrow> selected_attractions st \<noteq> [] \<or> selected_cuisines st \<noteq> []"
  by (simp add: can_continue_def py_or_def)

text \<open>
  C8. Leaving the local-insights stage: with both selection lists empty the click
  changes nothing (the stage index stays as it is); with at least one of them
  non-empty the itinerary is stored and the stage index becomes 3, the itinerary stage.
\<close>

theorem forward_from_local_insights:
  "(selected_attractions st = [] \<and> selected_cuisines st = []
      \<longrightarrow> continue_to_itinerary st schedule_json = st)
   \<and> (selected_attractions st \<noteq> [] \<or> selected_cuisines st \<noteq> []
      \<longrightarrow> step (continue_to_itinerary st schedule_json) = 3
        \<and> itinerary (continue_to_itinerary st schedule_json) = format_trip_schedule schedule_json)"
  by (simp add: continue_to_itinerary_def can_continue_iff)

theorem forward_from_local_insights_witness:
  "continue_to_itinerary
     \<lparr>step = 2, selected_attractions = [], selected_cuisines = [], itinerary = PNone\<rparr> (PDict [])
   = \<lparr>step = 2, selected_attractions = [], selected_cuisines = [], itinerary = PNone\<rparr>
   \<and> step (continue_to_itinerary
       \<lparr>step = 2, selected_attractions = [], selected_cuisines = [PStr ''Dosa''], itinerary = PNone\<rparr>
       (PDict [])) = 3"
  using forward_from_local_insights
          [of "\<lparr>step = 2, selected_attractions = [], selected_cuisines = [], itinerary = PNone\<rparr>" "PDict []"]
        forward_from_local_insights
          [of "\<lparr>step = 2, selected_attractions = [], selected_cuisines = [PStr ''Dosa''], itinerary = PNone\<rparr>"
              "PDict []"]
  by simp

section \<open>Destination records\<close>

lemma format_place_dict:
  "format_place (PDict kvs) =
     Inr (PDict
       [(''place'', dict_get kvs ''place'' (PStr ''Unknown'')),
        (''reason'', dict_get kvs ''reason'' (PStr ''No reason provided.'')),
        (''weather_suitability'', dict_get kvs ''weather_suitability'' (PStr [CHR 0xE2, CHR 0x80, CHR 0x94])),
        (''travel_cost_estimate'', dict_get kvs ''travel_cost_estimate'' (PDict [])),
        (''accommodation_range'', dict_get kvs ''accommodation_range'' (PStr [CHR 0xE2, CHR 0x80, CHR 0x94])),
        (''safety_rating'', dict_get kvs ''safety_rating'' (PStr [CHR 0xE2, CHR 0x80, CHR 0x94])),
        (''accessibility'', dict_get kvs ''accessibility'' (PStr [CHR 0xE2, CHR 0x80, CHR 0x94])),
        (''permit_required'', dict_get kvs ''permit_required'' (PStr [CHR 0xE2, CHR 0x80, CHR 0x94])),
        (''photos'', dict_get kvs ''photos'' (PList []))])"
  by (simp add: format_place_def)

lemma format_place_keys:
  assumes "format_place item = Inr r"
  shows "\<exists>fields. r = PDict fields \<and> map fst fields = city_keys"
  using assms by (cases item) (auto simp: format_place_def city_keys_def)

lemma format_places_all_dicts:
  assumes "\<forall>x \<in> set xs. \<exists>kvs. x = PDict kvs"
  shows "\<exists>ys. format_places xs = Inr ys \<and> length ys = length xs
           \<and> (\<forall>i < length xs. format_place (xs ! i) = Inr (ys ! i))"
  using assms
proof (induction xs)
  case Nil
  then show ?case by simp
next
  case (Cons x xs)
  then obtain kvs where x: "x = PDict kvs" by auto
  from Cons obtain ys where ys: "format_places xs = Inr ys" "length ys = length xs"
    "\<forall>i < length xs. format_place (xs ! i) = Inr (ys ! i)" by auto
  obtain r where r: "format_place x = Inr r" using x by (simp add: format_place_def)
  have "format_places (x # xs) = Inr (r # ys)" using r ys(1) by simp
  moreover have "\<forall>i < length (x # xs). format_place ((x # xs) ! i) = Inr ((r # ys) ! i)"
    using r ys(3) by (auto simp: nth_Cons split: nat.split)
  ultimately show ?case using ys(2) by auto
qed

text \<open>
  C10. For a list whose elements are all dictionaries, \<open>format_city_suggestions\<close>
  returns a list of the same length; its \<open>i\<close>th element is the record built from the
  \<open>i\<close>th input element, and the keys of that record are exactly the nine keys
  \<open>place\<close>, \<open>reason\<close>, \<open>weather_suitability\<close>, \<open>travel_cost_estimate\<close>,
  \<open>accommodation_range\<close>, \<open>safety_rating\<close>, \<open>accessibility\<close>, \<open>permit_required\<close>,
  \<open>photos\<close>, whatever other keys the input element had.
\<close>

theorem city_suggestions_of_dicts:
  assumes "\<forall>x \<in> set xs. \<exists>kvs. x = PDict kvs"
  shows "\<exists>ys. format_city_suggestions (PList xs) = Inr (PList ys)
           \<and> length ys = length xs
           \<and> (\<forall>i < length xs.
                 format_place (xs ! i) = Inr (ys ! i)
                 \<and> (\<exists>fields. ys ! i = PDict fields \<and> map fst fields = city_keys))"
proof -
  from format_places_all_dicts [OF assms] obtain ys where
    ys: "format_places xs = Inr ys" "length ys = length xs"
        "\<forall>i < length xs. format_place (xs ! i) = Inr (ys ! i)" by blast
  have "format_city_suggestions (PList xs) = Inr (PList ys)"
    using ys(1) by (simp add: format_city_suggestions_def)
  moreover have "\<forall>i < length xs. \<exists>fields. ys ! i = PDict fields \<and> map fst fields = city_keys"
    using ys(3) format_place_keys by blast
  ultimately show ?thesis using ys(2,3) by blast
qed

theorem city_suggestions_of_dicts_witness:
  "format_city_suggestions
     (PList [PDict [(''place'', PStr ''Hampi''), (''rating'', PInt 5)], PDict []])
   = Inr (PList
       [PDict
          [(''place'', PStr ''Hampi''),
           (''reason'', PStr ''No reason provided.''),
           (''weather_suitability'', PStr [CHR 0xE2, CHR 0x80, CHR 0x94]),
           (''travel_cost_estimate'', PDict []),
           (''accommodation_range'', PStr [CHR 0xE2, CHR 0x80, CHR 0x94]),
           (''safety_rating'', PStr [CHR 0xE2, CHR 0x80, CHR 0x94]),
           (''accessibility'', PStr [CHR 0xE2, CHR 0x80, CHR 0x94]),
           (''permit_required'', PStr [CHR 0xE2, CHR 0x80, CHR 0x94]),
           (''photos'', PList [])],
        PDict
          [(''place'', PStr ''Unknown''),
           (''reason'', PStr ''No reason provided.''),
           (''weather_suitability'', PStr [CHR 0xE2, CHR 0x80, CHR 0x94]),
           (''travel_cost_estimate'', PDict []),
           (''accommodation_range'', PStr [CHR 0xE2, CHR 0x80, CHR 0x94]),
           (''safety_rating'', PStr [CHR 0xE2, CHR 0x80, CHR 0x94]),
           (''accessibility'', PStr [CHR 0xE2, CHR 0x80, CHR 0x94]),
           (''permit_required'', PStr [CHR 0xE2, CHR 0x80, CHR 0x94]),
           (''photos'', PList [])]])"
proof -
  let ?a = "PDict [(''place'', PStr ''Hampi''), (''rating'', PInt 5)]"
  let ?b = "PDict []"
  have h: "\<forall>x \<in> set [?a, ?b]. \<exists>kvs. x = PDict kvs"
    by simp
  from city_suggestions_of_dicts [OF h] obtain ys where
    res: "format_city_suggestions (PList [?a, ?b]) = Inr (PList ys)" and
    len: "length ys = length [?a, ?b]" and
    elt: "\<forall>i < length [?a, ?b]. format_place ([?a, ?b] ! i) = Inr (ys ! i)
            \<and> (\<exists>fields. ys ! i = PDict fields \<and> map fst fields = city_keys)"
    by blast
  from len obtain p q where ys: "ys = [p, q]"
    by (auto simp: length_Suc_conv)
  from elt [rule_format, of 0] have p: "format_place ?a = Inr p"
    by (simp add: ys)
  from elt [rule_format, of 1] have q: "format_place ?b = Inr q"
    by (simp add: ys)
  show ?thesis
    using p q unfolding res ys by (simp add: format_place_def dict_get_def)
qed

section \<open>Weather gate\<close>

lemma below_ten:
  "k < 10 \<Longrightarrow> k = 0 \<or> k = 1 \<or> k = 2 \<or> k = 3 \<or> k = 4 \<or> k = 5 \<or> k = 6 \<or> k = 7 \<or> k = 8 \<or> k = (9::nat)"
  by arith

lemma read_digit_ascii:
  "k < 10 \<Longrightarrow> read_digit (digit_char k # r) = Some (k, r)"
  by (drule below_ten)
     (auto simp: digit_char_def read_digit_def decode_char_def decimal_def decimal_zeros_def)

lemma read_digit_bound:
  assumes "read_digit s = Some (v, r)"
  shows "v < 10"
proof -
  from assms obtain cp z where "find (\<lambda>z. z \<le> cp \<and> cp < z + 10) decimal_zeros = Some z"
    and v: "v = cp - z"
    by (auto simp: read_digit_def decimal_def split: option.splits)
  then have "z \<le> cp \<and> cp < z + 10"
    by (auto simp: find_Some_iff)
  with v show ?thesis by arith
qed

lemma four_digits:
  fixes y :: nat
  shows "1000 * (y div 1000) + 100 * (y div 100 mod 10) + 10 * (y div 10 mod 10) + y mod 10 = y"
proof -
  have h: "y div 100 = y div 10 div 10" "y div 1000 = y div 10 div 10 div 10"
    by (simp_all add: div_mult2_eq [symmetric])
  have 1: "10 * (y div 10) + y mod 10 = y" by simp
  have 2: "10 * (y div 10 div 10) + y div 10 mod 10 = y div 10"
    by (rule mult_div_mod_eq)
  have 3: "10 * (y div 10 div 10 div 10) + y div 10 div 10 mod 10 = y div 10 div 10"
    by (rule mult_div_mod_eq)
  from 1 2 3 show ?thesis unfolding h by linarith
qed

lemma parse_year_iso:
  assumes "y \<le> 9999"
  shows "parse_year (digit_char (y div 1000) # digit_char (y div 100 mod 10)
           # digit_char (y div 10 mod 10) # digit_char (y mod 10) # rest) = Some (y, rest)"
proof -
  from assms have a: "y div 1000 < 10" by simp
  have b: "y div 100 mod 10 < 10" "y div 10 mod 10 < 10" "y mod 10 < 10" by simp_all
  show ?thesis
    unfolding parse_year_def
    by (simp only: read_digit_ascii [OF a] read_digit_ascii [OF b(1)] read_digit_ascii [OF b(2)]
          read_digit_ascii [OF b(3)] option.case prod.case four_digits)
qed

lemma parse_year_bound:
  assumes "parse_year s = Some (y, r)"
  shows "y \<le> 9999"
proof -
  from assms obtain a r1 b r2 c r3 d where
    digits: "read_digit s = Some (a, r1)" "read_digit r1 = Some (b, r2)"
      "read_digit r2 = Some (c, r3)" "read_digit r3 = Some (d, r)"
    and y: "y = 1000 * a + 100 * b + 10 * c + d"
    by (auto simp: parse_year_def split: option.splits)
  from digits [THEN read_digit_bound] y show ?thesis by simp
qed

lemma is_digit_bound: "is_digit c \<Longrightarrow> digit_val c \<le> 9"
  by (auto simp: is_digit_def digit_val_def)

lemma parse_month_bound:
  "parse_month s = Some (m, r) \<Longrightarrow> 1 \<le> m \<and> m \<le> 12"
  by (auto simp: parse_month_def split: list.splits if_splits dest: is_digit_bound)

lemma parse_day_bound:
  "parse_day s = Some (d, r) \<Longrightarrow> 1 \<le> d"
  by (auto simp: parse_day_def digit_val_def split: list.splits if_splits option.splits)

lemma strptime_ymd_valid:
  assumes "strptime_ymd s = Some d"
  shows "valid_date d \<and> year d \<le> 9999"
proof -
  from assms obtain y r1 m r3 dd r5 where
    y: "parse_year s = Some (y, r1)" and m: "parse_month (tl r1) = Some (m, r3)"
    and dd: "parse_day (tl r3) = Some (dd, r5)"
    and ok: "1 \<le> y" "dd \<le> days_in_month y m" and d: "d = \<lparr>year = y, month = m, day = dd\<rparr>"
    by (auto simp: strptime_ymd_def split: option.splits list.splits if_splits)
  from parse_year_bound [OF y] parse_month_bound [OF m] parse_day_bound [OF dd] ok d
  show ?thesis by (simp add: valid_date_def)
qed

lemma strptime_ymd_empty: "strptime_ymd [] = None"
  by (simp add: strptime_ymd_def parse_year_def read_digit_def decode_char_def)

lemma month_cases:
  "1 \<le> m \<Longrightarrow> m \<le> 12 \<Longrightarrow>
     m = 1 \<or> m = 2 \<or> m = 3 \<or> m = 4 \<or> m = 5 \<or> m = 6 \<or> m = 7 \<or> m = 8 \<or> m = 9
     \<or> m = 10 \<or> m = 11 \<or> m = (12::nat)"
  by arith

lemma parse_month_iso:
  assumes "1 \<le> m" "m \<le> 12"
  shows "parse_month (digit_char (m div 10) # digit_char (m mod 10) # CHR ''-'' # rest)
           = Some (m, CHR ''-'' # rest)"
  using month_cases [OF assms]
  by (elim disjE) (simp_all add: parse_month_def digit_char_def is_digit_def digit_val_def)

lemma days_in_month_le: "days_in_month y m \<le> 31"
  by (simp add: days_in_month_def)

lemma parse_day_iso:
  assumes "1 \<le> d" "d \<le> 31"
  shows "parse_day [digit_char (d div 10), digit_char (d mod 10)] = Some (d, [])"
proof -
  have tens: "d div 10 = 0 \<or> d div 10 = 1 \<or> d div 10 = 2 \<or> d div 10 = 3"
    using assms by arith
  have unit: "d mod 10 < 10" by simp
  have d: "d = 10 * (d div 10) + d mod 10" by simp
  from tens show ?thesis
  proof (elim disjE)
    assume t: "d div 10 = 0"
    with assms d have "1 \<le> d mod 10" by simp
    with t d below_ten [OF unit] show ?thesis
      by (auto simp: parse_day_def digit_char_def is_digit_def digit_val_def read_digit_def
            decode_char_def)
  next
    assume t: "d div 10 = 1"
    have "parse_day [CHR ''1'', digit_char (d mod 10)] = Some (10 + d mod 10, [])"
      using read_digit_ascii [OF unit, of "[]"]
      by (simp add: parse_day_def digit_val_def)
    with t d show ?thesis by (simp add: digit_char_def)
  next
    assume t: "d div 10 = 2"
    have "parse_day [CHR ''2'', digit_char (d mod 10)] = Some (20 + d mod 10, [])"
      using read_digit_ascii [OF unit, of "[]"]
      by (simp add: parse_day_def digit_val_def)
    with t d show ?thesis by (simp add: digit_char_def)
  next
    assume t: "d div 10 = 3"
    with assms d have "d mod 10 = 0 \<or> d mod 10 = 1" by arith
    with t d show ?thesis
      by (auto simp: parse_day_def digit_char_def is_digit_def digit_val_def)
  qed
qed

lemma strptime_isoformat:
  assumes "valid_date d" "year d \<le> 9999"
  shows "strptime_ymd (isoformat d) = Some d"
proof -
  from assms(1) have m: "1 \<le> month d" "month d \<le> 12" and dd: "1 \<le> day d"
    and dm: "day d \<le> days_in_month (year d) (month d)" and y: "1 \<le> year d"
    by (simp_all add: valid_date_def)
  from dm days_in_month_le [of "year d" "month d"] have d31: "day d \<le> 31" by simp
  show ?thesis
    using y dm
    by (simp add: strptime_ymd_def isoformat_def parse_year_iso [OF assms(2)]
          parse_month_iso [OF m] parse_day_iso [OF dd d31])
qed

lemma mod_of_multiple:
  fixes a :: nat
  assumes "a mod (k * m) = 0"
  shows "a mod k = 0"
proof -
  from assms have "k * m dvd a" by (simp add: mod_eq_0_iff_dvd)
  then have "k dvd a" by (rule dvd_mult_left)
  then show ?thesis by (simp add: mod_eq_0_iff_dvd)
qed

lemma leap_step:
  "(if Suc n mod 4 = 0 then 1 else 0) + (if Suc n mod 400 = 0 then 1 else 0)
     = (if Suc n mod 100 = 0 then 1 else 0) + (if is_leap (Suc n) then 1 else (0::int))"
proof -
  have a: "Suc n mod 4 = 0" if "Suc n mod 100 = 0"
    using mod_of_multiple [of "Suc n" 4 25] that by simp
  have b: "Suc n mod 100 = 0" if "Suc n mod 400 = 0"
    using mod_of_multiple [of "Suc n" 100 4] that by simp
  show ?thesis
  proof (cases "Suc n mod 400 = 0")
    case True
    with a b show ?thesis by (simp add: is_leap_def)
  next
    case False
    show ?thesis
    proof (cases "Suc n mod 100 = 0")
      case True
      with False a show ?thesis by (simp add: is_leap_def)
    next
      case False
      with \<open>Suc n mod 400 \<noteq> 0\<close> show ?thesis by (simp add: is_leap_def)
    qed
  qed
qed

lemma int_div_Suc:
  "int (Suc n) div int k = int n div int k + (if Suc n mod k = 0 then 1 else 0)"
  unfolding zdiv_int [symmetric] by (simp add: div_Suc)

lemma days_before_year_Suc:
  assumes "1 \<le> y"
  shows "days_before_year (Suc y) = days_before_year y + 365 + (if is_leap y then 1 else 0)"
proof -
  from assms obtain n where y: "y = Suc n" by (cases y) auto
  have d4: "int (Suc n) div 4 = int n div 4 + (if Suc n mod 4 = 0 then 1 else 0)"
    using int_div_Suc [of n 4] by (simp del: of_nat_Suc)
  have d100: "int (Suc n) div 100 = int n div 100 + (if Suc n mod 100 = 0 then 1 else 0)"
    using int_div_Suc [of n 100] by (simp del: of_nat_Suc)
  have d400: "int (Suc n) div 400 = int n div 400 + (if Suc n mod 400 = 0 then 1 else 0)"
    using int_div_Suc [of n 400] by (simp del: of_nat_Suc)
  have e: "int (Suc (Suc n)) - 1 = int (Suc n)" by simp
  have new: "days_before_year (Suc (Suc n))
          = int (Suc n) * 365 + int (Suc n) div 4 - int (Suc n) div 100 + int (Suc n) div 400"
    unfolding days_before_year_def Let_def e by (rule refl)
  have old: "days_before_year (Suc n) = int n * 365 + int n div 4 - int n div 100 + int n div 400"
    by (simp add: days_before_year_def Let_def)
  have "int (Suc n) * 365 = int n * 365 + 365" by simp
  with leap_step [of n] show ?thesis
    unfolding y new old d4 d100 d400 by linarith
qed

lemma days_before_month_Suc:
  assumes "1 \<le> m" "m < 12"
  shows "days_before_month y (Suc m) = days_before_month y m + int (days_in_month y m)"
proof -
  from assms have "m = 1 \<or> m = 2 \<or> m = 3 \<or> m = 4 \<or> m = 5 \<or> m = 6 \<or> m = 7 \<or> m = 8
      \<or> m = 9 \<or> m = 10 \<or> m = 11" by arith
  then show ?thesis
    by (elim disjE) (simp_all add: days_before_month_def days_in_month_def)
qed

lemma toordinal_next_day:
  assumes "valid_date d"
  shows "toordinal (next_day d) = toordinal d + 1"
proof -
  from assms have m: "1 \<le> month d" "month d \<le> 12" and y: "1 \<le> year d"
    and dm: "day d \<le> days_in_month (year d) (month d)"
    by (simp_all add: valid_date_def)
  consider "day d < days_in_month (year d) (month d)"
    | "day d = days_in_month (year d) (month d)" "month d < 12"
    | "day d = days_in_month (year d) (month d)" "month d = 12"
    using dm m by linarith
  then show ?thesis
  proof cases
    case 1
    then show ?thesis by (simp add: next_day_def toordinal_def)
  next
    case 2
    with days_before_month_Suc [OF m(1) 2(2), of "year d"] show ?thesis
      by (simp add: next_day_def toordinal_def)
  next
    case 3
    with days_before_year_Suc [OF y] show ?thesis
      by (simp add: next_day_def toordinal_def days_before_month_def days_in_month_def)
  qed
qed

lemma valid_next_day: "valid_date d \<Longrightarrow> valid_date (next_day d)"
  by (auto simp: valid_date_def next_day_def days_in_month_def)

lemma toordinal_plus_days:
  "valid_date d \<Longrightarrow> toordinal (plus_days d k) = toordinal d + int k"
proof (induction k arbitrary: d)
  case 0
  show ?case by simp
next
  case (Suc k)
  from Suc.IH [OF valid_next_day [OF Suc.prems]] toordinal_next_day [OF Suc.prems]
  show ?case by simp
qed

lemma valid_plus_days: "valid_date d \<Longrightarrow> valid_date (plus_days d k)"
  by (induction k arbitrary: d) (simp_all add: valid_next_day)

lemma isoformat_not_empty: "isoformat d \<noteq> []"
  by (simp add: isoformat_def)

lemma gate_iff:
  "should_show_weather today inp \<longleftrightarrow>
      (\<exists>s d. start_date inp = Some s \<and> strptime_ymd s = Some d
             \<and> planning_style inp = Some ''holiday_based''
             \<and> 0 \<le> toordinal d - toordinal today \<and> toordinal d - toordinal today \<le> 3)"
  by (cases "start_date inp"; cases "planning_style inp")
     (auto simp: should_show_weather_def Let_def strptime_ymd_empty split: option.splits)

text \<open>
  C1. \<open>should_show_weather\<close> is false when the start date or the planning style is
  absent, or when the start date does not parse as a calendar date; it is true exactly
  when the start date parses, the planning style is \<open>holiday_based\<close>, and the start
  date is 0 to 3 days after today. So it is false for \<open>season_based\<close> at every date.
  What parses is pinned from both sides: the text \<^verbatim>\<open>YYYY-MM-DD\<close> of every calendar date
  parses to that date, and whatever parses is a calendar date. The day count is the
  calendar's: the ordinal of the day after \<open>d\<close> is one more than that of \<open>d\<close>. Hence
  for a \<open>holiday_based\<close> trip whose start date is written as \<open>today + k\<close> the gate
  holds exactly when \<open>k \<le> 3\<close> (true for \<open>today + 2\<close>, false for \<open>today + 10\<close>), and it
  does not hold for a start date before today.
\<close>

theorem weather_gate:
  "(should_show_weather today inp \<longleftrightarrow>
      (\<exists>s d. start_date inp = Some s \<and> strptime_ymd s = Some d
             \<and> planning_style inp = Some ''holiday_based''
             \<and> 0 \<le> toordinal d - toordinal today \<and> toordinal d - toordinal today \<le> 3))
   \<and> (start_date inp = None \<or> planning_style inp = None
        \<or> (\<exists>s. start_date inp = Some s \<and> strptime_ymd s = None)
      \<longrightarrow> \<not> should_show_weather today inp)
   \<and> (planning_style inp = Some ''season_based'' \<longrightarrow> \<not> should_show_weather today inp)
   \<and> (\<forall>d. valid_date d \<and> year d \<le> 9999 \<longrightarrow> strptime_ymd (isoformat d) = Some d)
   \<and> (\<forall>s d. strptime_ymd s = Some d \<longrightarrow> valid_date d \<and> year d \<le> 9999)
   \<and> (\<forall>d. valid_date d \<longrightarrow> valid_date (next_day d) \<and> toordinal (next_day d) = toordinal d + 1)
   \<and> (\<forall>d k. valid_date d \<longrightarrow> toordinal (plus_days d k) = toordinal d + int k)
   \<and> (\<forall>k. valid_date today \<and> year (plus_days today k) \<le> 9999
            \<and> start_date inp = Some (isoformat (plus_days today k))
            \<and> planning_style inp = Some ''holiday_based''
        \<longrightarrow> (should_show_weather today inp \<longleftrightarrow> k \<le> 3))
   \<and> (\<forall>d k. valid_date d \<and> year d \<le> 9999 \<and> today = plus_days d (Suc k)
              \<and> start_date inp = Some (isoformat d)
        \<longrightarrow> \<not> should_show_weather today inp)"
proof -
  have absent: "\<not> should_show_weather today inp"
    if "start_date inp = None \<or> planning_style inp = None
        \<or> (\<exists>s. start_date inp = Some s \<and> strptime_ymd s = None)"
    using that unfolding gate_iff by auto
  have season: "\<not> should_show_weather today inp" if "planning_style inp = Some ''season_based''"
    using that unfolding gate_iff by auto
  have ahead: "should_show_weather today inp \<longleftrightarrow> k \<le> 3"
    if "valid_date today" "year (plus_days today k) \<le> 9999"
       "start_date inp = Some (isoformat (plus_days today k))"
       "planning_style inp = Some ''holiday_based''" for k
  proof -
    have "strptime_ymd (isoformat (plus_days today k)) = Some (plus_days today k)"
      using valid_plus_days [OF that(1)] that(2) by (rule strptime_isoformat)
    with that(3,4) toordinal_plus_days [OF that(1), of k] show ?thesis
      unfolding gate_iff by auto
  qed
  have behind: "\<not> should_show_weather today inp"
    if "valid_date d" "year d \<le> 9999" "today = plus_days d (Suc k)"
       "start_date inp = Some (isoformat d)" for d k
  proof -
    have "strptime_ymd (isoformat d) = Some d"
      using that(1,2) by (rule strptime_isoformat)
    moreover have "toordinal today = toordinal d + int (Suc k)"
      unfolding that(3) using that(1) by (rule toordinal_plus_days)
    ultimately show ?thesis
      using that(4) unfolding gate_iff by auto
  qed
  from gate_iff [of today inp] absent season strptime_isoformat strptime_ymd_valid
    valid_next_day toordinal_next_day toordinal_plus_days ahead behind
  show ?thesis by blast
qed

lemmas date_eval =
  strptime_ymd_def parse_year_def parse_month_def parse_day_def read_digit_def decode_char_def
  continuation_def decimal_def decimal_zeros_def is_digit_def digit_val_def
  days_in_month_def is_leap_def toordinal_def days_before_year_def days_before_month_def Let_def

lemmas calendar_eval =
  valid_date_def next_day_def isoformat_def digit_char_def days_in_month_def is_leap_def

lemma plus_days_2: "plus_days d 2 = next_day (next_day d)"
  by (simp add: numeral_2_eq_2)

lemma plus_days_10:
  "plus_days d 10
     = next_day (next_day (next_day (next_day (next_day (next_day (next_day (next_day
         (next_day (next_day d)))))))))"
proof -
  have "(10::nat) = Suc (Suc (Suc (Suc (Suc (Suc (Suc (Suc (Suc (Suc 0)))))))))" by simp
  then show ?thesis by (simp only: plus_days.simps)
qed

theorem weather_gate_witness:
  "should_show_weather \<lparr>year = 2024, month = 2, day = 28\<rparr>
     \<lparr>total_budget = None, budget_range = None,
      start_date = Some ''2024-03-01'', planning_style = Some ''holiday_based''\<rparr>
   \<and> \<not> should_show_weather \<lparr>year = 2024, month = 2, day = 28\<rparr>
     \<lparr>total_budget = None, budget_range = None,
      start_date = Some ''2024-03-09'', planning_style = Some ''holiday_based''\<rparr>
   \<and> \<not> should_show_weather \<lparr>year = 2024, month = 2, day = 28\<rparr>
     \<lparr>total_budget = None, budget_range = None,
      start_date = Some ''2024-03-01'', planning_style = Some ''season_based''\<rparr>
   \<and> \<not> should_show_weather \<lparr>year = 2025, month = 4, day = 10\<rparr>
     \<lparr>total_budget = None, budget_range = None,
      start_date = Some ''2025-02-30'', planning_style = Some ''holiday_based''\<rparr>
   \<and> \<not> should_show_weather \<lparr>year = 2025, month = 4, day = 10\<rparr>
     \<lparr>total_budget = None, budget_range = None,
      start_date = Some ''2026-05-12'', planning_style = Some ''holiday_based''\<rparr>
   \<and> \<not> should_show_weather \<lparr>year = 2025, month = 4, day = 10\<rparr>
     \<lparr>total_budget = None, budget_range = None,
      start_date = Some ''2025-04-09'', planning_style = Some ''holiday_based''\<rparr>
   \<and> should_show_weather \<lparr>year = 2025, month = 4, day = 10\<rparr>
     \<lparr>total_budget = None, budget_range = None,
      start_date = Some ([CHR 0xEF, CHR 0xBC, CHR 0x92, CHR 0xEF, CHR 0xBC, CHR 0x90,
                          CHR 0xEF, CHR 0xBC, CHR 0x92, CHR 0xEF, CHR 0xBC, CHR 0x95]
                         @ ''-04-12''),
      planning_style = Some ''holiday_based''\<rparr>"
proof -
  let ?feb28 = "\<lparr>year = 2024, month = 2, day = 28\<rparr>"
  let ?apr10 = "\<lparr>year = 2025, month = 4, day = 10\<rparr>"
  have today: "valid_date ?feb28"
    by (simp add: calendar_eval)
  have two: "plus_days ?feb28 2 = \<lparr>year = 2024, month = 3, day = 1\<rparr>"
    by (simp add: plus_days_2 calendar_eval)
  have ten: "plus_days ?feb28 10 = \<lparr>year = 2024, month = 3, day = 9\<rparr>"
    by (simp add: plus_days_10 calendar_eval)
  have iso2: "isoformat \<lparr>year = 2024, month = 3, day = 1\<rparr> = ''2024-03-01''"
    by (simp add: calendar_eval)
  have iso10: "isoformat \<lparr>year = 2024, month = 3, day = 9\<rparr> = ''2024-03-09''"
    by (simp add: calendar_eval)
  have 1: "should_show_weather ?feb28
     \<lparr>total_budget = None, budget_range = None,
      start_date = Some ''2024-03-01'', planning_style = Some ''holiday_based''\<rparr>"
    using weather_gate [of ?feb28 "\<lparr>total_budget = None, budget_range = None,
      start_date = Some ''2024-03-01'', planning_style = Some ''holiday_based''\<rparr>",
      THEN conjunct2, THEN conjunct2, THEN conjunct2, THEN conjunct2, THEN conjunct2,
      THEN conjunct2, THEN conjunct2, THEN conjunct1, THEN spec, of 2]
      today two iso2 by simp
  have 2: "\<not> should_show_weather ?feb28
     \<lparr>total_budget = None, budget_range = None,
      start_date = Some ''2024-03-09'', planning_style = Some ''holiday_based''\<rparr>"
    using weather_gate [of ?feb28 "\<lparr>total_budget = None, budget_range = None,
      start_date = Some ''2024-03-09'', planning_style = Some ''holiday_based''\<rparr>",
      THEN conjunct2, THEN conjunct2, THEN conjunct2, THEN conjunct2, THEN conjunct2,
      THEN conjunct2, THEN conjunct2, THEN conjunct1, THEN spec, of 10]
      today ten iso10 by simp
  have 3: "\<not> should_show_weather ?feb28
     \<lparr>total_budget = None, budget_range = None,
      start_date = Some ''2024-03-01'', planning_style = Some ''season_based''\<rparr>"
    using weather_gate [of ?feb28 "\<lparr>total_budget = None, budget_range = None,
      start_date = Some ''2024-03-01'', planning_style = Some ''season_based''\<rparr>",
      THEN conjunct2, THEN conjunct2, THEN conjunct1] by simp
  have "strptime_ymd ''2025-02-30'' = None"
    by (simp add: date_eval)
  then have 4: "\<not> should_show_weather ?apr10
     \<lparr>total_budget = None, budget_range = None,
      start_date = Some ''2025-02-30'', planning_style = Some ''holiday_based''\<rparr>"
    using weather_gate [of ?apr10 "\<lparr>total_budget = None, budget_range = None,
      start_date = Some ''2025-02-30'', planning_style = Some ''holiday_based''\<rparr>",
      THEN conjunct2, THEN conjunct1] by simp
  have o: "toordinal ?apr10 = 739351"
    by (simp add: date_eval)
  have far: "strptime_ymd ''2026-05-12'' = Some \<lparr>year = 2026, month = 5, day = 12\<rparr>"
    by (simp add: date_eval)
  have ofar: "toordinal \<lparr>year = 2026, month = 5, day = 12\<rparr> = 739748"
    by (simp add: date_eval)
  have 5: "\<not> should_show_weather ?apr10
     \<lparr>total_budget = None, budget_range = None,
      start_date = Some ''2026-05-12'', planning_style = Some ''holiday_based''\<rparr>"
    using weather_gate [of ?apr10 "\<lparr>total_budget = None, budget_range = None,
      start_date = Some ''2026-05-12'', planning_style = Some ''holiday_based''\<rparr>",
      THEN conjunct1] by (simp add: far o ofar)
  have past: "strptime_ymd ''2025-04-09'' = Some \<lparr>year = 2025, month = 4, day = 9\<rparr>"
    by (simp add: date_eval)
  have opast: "toordinal \<lparr>year = 2025, month = 4, day = 9\<rparr> = 739350"
    by (simp add: date_eval)
  have 6: "\<not> should_show_weather ?apr10
     \<lparr>total_budget = None, budget_range = None,
      start_date = Some ''2025-04-09'', planning_style = Some ''holiday_based''\<rparr>"
    using weather_gate [of ?apr10 "\<lparr>total_budget = None, budget_range = None,
      start_date = Some ''2025-04-09'', planning_style = Some ''holiday_based''\<rparr>",
      THEN conjunct1] by (simp add: past o opast)
  have wide: "strptime_ymd ([CHR 0xEF, CHR 0xBC, CHR 0x92, CHR 0xEF, CHR 0xBC, CHR 0x90,
                          CHR 0xEF, CHR 0xBC, CHR 0x92, CHR 0xEF, CHR 0xBC, CHR 0x95]
                         @ ''-04-12'') = Some \<lparr>year = 2025, month = 4, day = 12\<rparr>"
    by (simp add: date_eval)
  have owide: "toordinal \<lparr>year = 2025, month = 4, day = 12\<rparr> = 739353"
    by (simp add: date_eval)
  have 7: "should_show_weather ?apr10
     \<lparr>total_budget = None, budget_range = None,
      start_date = Some ([CHR 0xEF, CHR 0xBC, CHR 0x92, CHR 0xEF, CHR 0xBC, CHR 0x90,
                          CHR 0xEF, CHR 0xBC, CHR 0x92, CHR 0xEF, CHR 0xBC, CHR 0x95]
                         @ ''-04-12''),
      planning_style = Some ''holiday_based''\<rparr>"
    using weather_gate [of ?apr10 "\<lparr>total_budget = None, budget_range = None,
      start_date = Some ([CHR 0xEF, CHR 0xBC, CHR 0x92, CHR 0xEF, CHR 0xBC, CHR 0x90,
                          CHR 0xEF, CHR 0xBC, CHR 0x92, CHR 0xEF, CHR 0xBC, CHR 0x95]
                         @ ''-04-12''),
      planning_style = Some ''holiday_based''\<rparr>", THEN conjunct1]
      wide [simplified] by (simp add: o owide)
  from 1 2 3 4 5 6 7 show ?thesis by (intro conjI)
qed

section \<open>Evaluating the decoder\<close>

lemma scan_once_unfold:
  "0 < n \<Longrightarrow> scan_once n s =
     (case s of
        [] \<Rightarrow> Inl Malformed
      | c # cs \<Rightarrow>
          if c = CHR ''{'' then
            (case skip_ws cs of
               [] \<Rightarrow> Inl Malformed
             | q # qs \<Rightarrow>
                 if q = CHR ''}'' then Inr (PDict [], qs)
                 else if q = CHR 0x22 then scan_object (n - 1) [] qs
                 else Inl Malformed)
          else if c = CHR ''['' then
            (case skip_ws cs of
               [] \<Rightarrow> Inl Malformed
             | q # qs \<Rightarrow>
                 if q = CHR '']'' then Inr (PList [], qs)
                 else scan_array (n - 1) [] (q # qs))
          else scan_atom s)"
  using scan_once.simps(2) [of "n - 1" s] by simp

lemma scan_array_unfold:
  "0 < n \<Longrightarrow> scan_array n acc s =
     (case scan_once (n - 1) s of
        Inl err \<Rightarrow> Inl err
      | Inr (v, r) \<Rightarrow>
          (case skip_ws r of
             [] \<Rightarrow> Inl Malformed
           | c # cs \<Rightarrow>
               if c = CHR '']'' then Inr (PList (acc @ [v]), cs)
               else if c = CHR '','' then scan_array (n - 1) (acc @ [v]) (skip_ws cs)
               else Inl Malformed))"
  using scan_array.simps(2) [of "n - 1" acc s] by simp

lemma scan_object_unfold:
  "0 < n \<Longrightarrow> scan_object n acc s =
     (case scanstring s of
        None \<Rightarrow> Inl Malformed
      | Some (key, r) \<Rightarrow>
          (case skip_ws r of
             [] \<Rightarrow> Inl Malformed
           | c # cs \<Rightarrow>
               if c \<noteq> CHR '':'' then Inl Malformed
               else
                 (case scan_once (n - 1) (skip_ws cs) of
                    Inl err \<Rightarrow> Inl err
                  | Inr (v, r2) \<Rightarrow>
                      (case skip_ws r2 of
                         [] \<Rightarrow> Inl Malformed
                       | d # ds \<Rightarrow>
                           if d = CHR ''}'' then Inr (PDict (dict_set acc key v), ds)
                           else if d = CHR '','' then
                             (case skip_ws ds of
                                [] \<Rightarrow> Inl Malformed
                              | q # qs \<Rightarrow>
                                  if q = CHR 0x22 then scan_object (n - 1) (dict_set acc key v) qs
                                  else Inl Malformed)
                           else Inl Malformed))))"
  using scan_object.simps(2) [of "n - 1" acc s] by simp

lemmas json_eval =
  json_loads_def scan_atom_def scan_constant_def literal_def scan_number_def scan_int_part_def
  scan_frac_def scan_exp_def int_max_str_digits_def digits_val_def digit_val_def is_digit_def
  skip_ws_def is_json_ws_def prepend_def backslash_def hex4_def hex_val_def utf8_def Let_def
  scan_once_unfold scan_array_unfold scan_object_unfold

lemmas span_eval =
  extract_json_in_backticks_def fenced_at_def bare_at_def closes_fence_def skip_space_def
  is_space_def lower_ascii_def

section \<open>Destination list: elements that are not mappings\<close>

lemma extract_goa:
  \<open>extract_json_in_backticks (PStr ''["Goa"]'') = PStr ''["Goa"]''\<close>
  by (simp add: span_eval)

lemma loads_goa:
  \<open>json_loads (PStr ''["Goa"]'') = Inr (PList [PStr ''Goa''])\<close>
  by (simp add: json_eval)

lemma extract_goa_object:
  \<open>extract_json_in_backticks (PStr ''{"place": "Goa"}'') = PStr ''{"place": "Goa"}''\<close>
  by (simp add: span_eval)

lemma loads_goa_object:
  \<open>json_loads (PStr ''{"place": "Goa"}'') = Inr (PDict [(''place'', PStr ''Goa'')])\<close>
  by (simp add: json_eval)

text \<open>
  C5. The claim is that \<open>format_city_suggestions\<close> never raises and drops an element
  that is not a mapping. In the code the loop calls \<^verbatim>\<open>item.get\<close> on every element
  with no test of its type, outside the \<^verbatim>\<open>try\<close> block: the response \<^verbatim>\<open>["Goa"]\<close>
  raises \<^verbatim>\<open>AttributeError\<close>, so does a list value holding one text after a well-formed
  mapping, and so does a single object, whose keys are what the loop iterates over.
\<close>

theorem city_suggestions_raise_on_non_mapping:
  \<open>format_city_suggestions (PStr ''["Goa"]'') = Inl AttributeError
   \<and> format_city_suggestions (PList [PDict [(''place'', PStr ''Hampi'')], PStr ''Goa''])
       = Inl AttributeError
   \<and> format_city_suggestions (PStr ''{"place": "Goa"}'') = Inl AttributeError\<close>
proof -
  have \<open>format_city_suggestions (PStr ''["Goa"]'') = Inl AttributeError\<close>
    by (simp add: format_city_suggestions_def extract_goa loads_goa py_or_def py_iter_def
          format_place_def)
  moreover have
    "format_city_suggestions (PList [PDict [(''place'', PStr ''Hampi'')], PStr ''Goa''])
       = Inl AttributeError"
    by (simp add: format_city_suggestions_def format_place_def)
  moreover have \<open>format_city_suggestions (PStr ''{"place": "Goa"}'') = Inl AttributeError\<close>
    by (simp add: format_city_suggestions_def extract_goa_object loads_goa_object py_or_def
          py_iter_def format_place_def)
  ultimately show ?thesis by (intro conjI)
qed

section \<open>What the normalizers return\<close>


lemma loads_not_text:
  "\<forall>t. raw \<noteq> PStr t \<Longrightarrow>
     json_loads (py_or (extract_json_in_backticks raw) raw) = Inl TypeError"
  by (cases raw) (simp_all add: extract_json_in_backticks_def py_or_def json_loads_def)

lemma raw_of_text:
  "\<exists>t. py_or (extract_json_in_backticks (PStr s)) (PStr s) = PStr t"
  by (simp add: extract_json_in_backticks_def py_or_def split: option.splits)

lemma schedule_raw_of_text:
  "py_or (extract_json_in_backticks (PStr s)) (py_or (PStr s) (PStr []))
     = py_or (extract_json_in_backticks (PStr s)) (PStr s)"
  by (simp add: py_or_def)

lemma local_expertise_of_text:
  "format_local_expertise (PStr s) =
     (case json_loads (py_or (extract_json_in_backticks (PStr s)) (PStr s)) of
        Inl err \<Rightarrow> Inr (PDict [])
      | Inr data \<Rightarrow> local_record data)"
  using raw_of_text [of s] by (auto simp: format_local_expertise_def Let_def)

lemma local_expertise_of_dict:
  "format_local_expertise (PDict kvs) = local_record (PDict kvs)"
  by (simp add: format_local_expertise_def extract_json_in_backticks_def py_or_def Let_def)

lemmas six_parsers =
  format_safety_info_def format_packing_list_def format_budget_breakdown_def
  format_transport_options_def format_accommodation_suggestions_def format_reviews_def

text \<open>
  C4, as the code has it. Let \<open>raw\<close> be the span found in a text \<open>s\<close>, or \<open>s\<close> itself
  when none is found. When \<open>raw\<close> does not parse, \<open>format_city_suggestions\<close> returns the
  empty list, \<open>format_local_expertise\<close> the empty mapping,
  \<open>format_trip_schedule\<close> a mapping with the one key \<open>error\<close>, and each of the six other
  normalizers the empty mapping. When \<open>raw\<close> parses to \<open>v\<close>, \<open>format_trip_schedule\<close>
  and the six others return \<open>v\<close> as it is, with no key added, and
  \<open>format_local_expertise\<close> builds its record from \<open>v\<close>: for a mapping, exactly the keys
  \<open>top_attractions\<close> and \<open>local_cuisine\<close>, each a list, empty when the field is missing
  or not a list. A mapping given to \<open>format_local_expertise\<close> is treated the same way,
  \<open>None\<close> like the empty mapping; \<open>format_trip_schedule\<close> returns a mapping unchanged;
  the six others return the empty mapping for every input that is not text.
\<close>

theorem normalizer_results:
  "(json_loads (py_or (extract_json_in_backticks (PStr s)) (PStr s)) = Inl err \<longrightarrow>
      format_city_suggestions (PStr s) = Inr (PList [])
      \<and> format_local_expertise (PStr s) = Inr (PDict [])
      \<and> format_trip_schedule (PStr s)
          = PDict [(''error'', PStr ''Invalid JSON format received from the model.'')]
      \<and> format_safety_info (PStr s) = PDict []
      \<and> format_packing_list (PStr s) = PDict []
      \<and> format_budget_breakdown (PStr s) = PDict []
      \<and> format_transport_options (PStr s) = PDict []
      \<and> format_accommodation_suggestions (PStr s) = PDict []
      \<and> format_reviews (PStr s) = PDict [])
   \<and> (json_loads (py_or (extract_json_in_backticks (PStr s)) (PStr s)) = Inr v \<longrightarrow>
      format_local_expertise (PStr s) = local_record v
      \<and> format_trip_schedule (PStr s) = v
      \<and> format_safety_info (PStr s) = v
      \<and> format_packing_list (PStr s) = v
      \<and> format_budget_breakdown (PStr s) = v
      \<and> format_transport_options (PStr s) = v
      \<and> format_accommodation_suggestions (PStr s) = v
      \<and> format_reviews (PStr s) = v)
   \<and> local_record (PDict kvs)
       = Inr (PDict
           [(''top_attractions'', list_or_empty (dict_get kvs ''top_attractions'' (PList []))),
            (''local_cuisine'', list_or_empty (dict_get kvs ''local_cuisine'' (PList [])))])
   \<and> (\<exists>xs. list_or_empty x = PList xs)
   \<and> format_local_expertise (PDict kvs) = local_record (PDict kvs)
   \<and> format_local_expertise PNone = local_record (PDict [])
   \<and> format_trip_schedule (PDict kvs) = PDict kvs
   \<and> ((\<forall>t. raw \<noteq> PStr t) \<longrightarrow>
      format_safety_info raw = PDict []
      \<and> format_packing_list raw = PDict []
      \<and> format_budget_breakdown raw = PDict []
      \<and> format_transport_options raw = PDict []
      \<and> format_accommodation_suggestions raw = PDict []
      \<and> format_reviews raw = PDict [])"
proof -
  have unparsed:
    "format_city_suggestions (PStr s) = Inr (PList [])
      \<and> format_local_expertise (PStr s) = Inr (PDict [])
      \<and> format_trip_schedule (PStr s)
          = PDict [(''error'', PStr ''Invalid JSON format received from the model.'')]
      \<and> format_safety_info (PStr s) = PDict []
      \<and> format_packing_list (PStr s) = PDict []
      \<and> format_budget_breakdown (PStr s) = PDict []
      \<and> format_transport_options (PStr s) = PDict []
      \<and> format_accommodation_suggestions (PStr s) = PDict []
      \<and> format_reviews (PStr s) = PDict []"
    if "json_loads (py_or (extract_json_in_backticks (PStr s)) (PStr s)) = Inl err"
    using that
    by (simp add: format_city_suggestions_def local_expertise_of_text format_trip_schedule_def
          schedule_raw_of_text six_parsers loads_or_empty_def)
  have parsed:
    "format_local_expertise (PStr s) = local_record v
      \<and> format_trip_schedule (PStr s) = v
      \<and> format_safety_info (PStr s) = v
      \<and> format_packing_list (PStr s) = v
      \<and> format_budget_breakdown (PStr s) = v
      \<and> format_transport_options (PStr s) = v
      \<and> format_accommodation_suggestions (PStr s) = v
      \<and> format_reviews (PStr s) = v"
    if "json_loads (py_or (extract_json_in_backticks (PStr s)) (PStr s)) = Inr v"
    using that
    by (simp add: local_expertise_of_text format_trip_schedule_def schedule_raw_of_text
          six_parsers loads_or_empty_def)
  have record_keys: "local_record (PDict kvs)
       = Inr (PDict
           [(''top_attractions'', list_or_empty (dict_get kvs ''top_attractions'' (PList []))),
            (''local_cuisine'', list_or_empty (dict_get kvs ''local_cuisine'' (PList [])))])"
    by (simp add: local_record_def)
  have lists: "\<exists>xs. list_or_empty x = PList xs"
    by (cases x) (simp_all add: list_or_empty_def)
  have none: "format_local_expertise PNone = local_record (PDict [])"
    by (simp add: format_local_expertise_def extract_json_in_backticks_def py_or_def Let_def)
  have schedule: "format_trip_schedule (PDict kvs) = PDict kvs"
    by (simp add: format_trip_schedule_def)
  have not_text:
    "format_safety_info raw = PDict []
      \<and> format_packing_list raw = PDict []
      \<and> format_budget_breakdown raw = PDict []
      \<and> format_transport_options raw = PDict []
      \<and> format_accommodation_suggestions raw = PDict []
      \<and> format_reviews raw = PDict []"
    if "\<forall>t. raw \<noteq> PStr t"
    using loads_not_text [OF that] by (simp add: six_parsers loads_or_empty_def)
  from unparsed parsed record_keys lists local_expertise_of_dict none schedule not_text
  show ?thesis by blast
qed

lemma extract_sorry:
  "extract_json_in_backticks (PStr ''Sorry, no data.'') = PNone"
  by (simp add: span_eval)

lemma loads_sorry:
  "json_loads (PStr ''Sorry, no data.'') = Inl JSONDecodeError"
  by (simp add: json_eval)

lemma extract_tips:
  \<open>extract_json_in_backticks (PStr ''{"tips": []}'') = PStr ''{"tips": []}''\<close>
  by (simp add: span_eval)

lemma loads_tips:
  \<open>json_loads (PStr ''{"tips": []}'') = Inr (PDict [(''tips'', PList [])])\<close>
  by (simp add: json_eval)

theorem normalizer_results_witness:
  \<open>format_local_expertise (PStr ''Sorry, no data.'') = Inr (PDict [])
   \<and> format_safety_info (PStr ''{"tips": []}'') = PDict [(''tips'', PList [])]
   \<and> format_reviews PNone = PDict []\<close>
proof -
  have unparsed: "json_loads (py_or (extract_json_in_backticks (PStr ''Sorry, no data.''))
                    (PStr ''Sorry, no data.'')) = Inl JSONDecodeError"
    by (simp add: extract_sorry loads_sorry py_or_def)
  have parsed: \<open>json_loads (py_or (extract_json_in_backticks (PStr ''{"tips": []}''))
                    (PStr ''{"tips": []}'')) = Inr (PDict [(''tips'', PList [])])\<close>
    by (simp add: extract_tips loads_tips py_or_def)
  have not_text: "\<forall>t. PNone \<noteq> PStr t"
    by simp
  have a: "format_local_expertise (PStr ''Sorry, no data.'') = Inr (PDict [])"
    using normalizer_results [of "''Sorry, no data.''" JSONDecodeError PNone "[]" PNone PNone]
          unparsed by blast
  have b: \<open>format_safety_info (PStr ''{"tips": []}'') = PDict [(''tips'', PList [])]\<close>
    using normalizer_results [of \<open>''{"tips": []}''\<close> JSONDecodeError
            "PDict [(''tips'', PList [])]" "[]" PNone PNone]
          parsed by blast
  have c: "format_reviews PNone = PDict []"
    using normalizer_results [of "[]" JSONDecodeError PNone "[]" PNone PNone] not_text by blast
  from a b c show ?thesis by (intro conjI)
qed

text \<open>
  The claim says that every normalizer returns every documented key for every input.
  The safety normalizer returns the empty mapping for \<^verbatim>\<open>None\<close> and for the text
  \<^verbatim>\<open>{}\<close>, and the local-insights normalizer returns the empty mapping, without its
  two keys, for a text that holds no JSON.
\<close>

theorem normalizers_return_empty_mapping:
  "format_safety_info PNone = PDict []
   \<and> format_safety_info (PStr ''{}'') = PDict []
   \<and> format_local_expertise (PStr ''Sorry, no data.'') = Inr (PDict [])"
proof -
  have "format_safety_info PNone = PDict []"
    by (simp add: format_safety_info_def loads_or_empty_def extract_json_in_backticks_def
          py_or_def json_loads_def)
  moreover have "extract_json_in_backticks (PStr ''{}'') = PStr ''{}''"
    by (simp add: span_eval)
  moreover have "json_loads (PStr ''{}'') = Inr (PDict [])"
    by (simp add: json_eval)
  ultimately have "format_safety_info PNone = PDict []" "format_safety_info (PStr ''{}'') = PDict []"
    by (simp_all add: format_safety_info_def loads_or_empty_def py_or_def)
  moreover have "format_local_expertise (PStr ''Sorry, no data.'') = Inr (PDict [])"
    by (simp add: local_expertise_of_text extract_sorry loads_sorry py_or_def)
  ultimately show ?thesis by (intro conjI)
qed

section \<open>The decoder consumes its input\<close>

lemma skip_ws_le: "length (skip_ws s) \<le> length s"
  by (simp add: skip_ws_def length_dropWhile_le)

lemma skip_ws_Cons: "skip_ws s = c # cs \<Longrightarrow> length cs < length s"
  using skip_ws_le [of s] by simp

lemma skip_ws_not_ws: "\<not> is_json_ws c \<Longrightarrow> skip_ws (c # cs) = c # cs"
  by (simp add: skip_ws_def)

lemma match_prefix_length:
  "match_prefix ci p t = Some r \<Longrightarrow> length r + length p = length t"
  by (induction ci p t rule: match_prefix.induct) (auto split: if_splits)

lemma literal_shorter:
  "literal (w # ws) v s = Some (x, r) \<Longrightarrow> length r < length s"
  by (auto simp: literal_def dest!: match_prefix_length)

lemma prepend_Some:
  "prepend pre res = Some (str, r) \<Longrightarrow> \<exists>str'. res = Some (str', r)"
  by (auto simp: prepend_def split: option.splits)

lemma scanstring_step:
  assumes "scanstring (c # cs) = Some (str, r)"
  shows "r = cs \<or> (\<exists>t str'. scanstring t = Some (str', r) \<and> length t \<le> length cs)"
proof -
  have rec: "\<exists>t str'. scanstring t = Some (str', r) \<and> length t \<le> length cs"
    if "prepend pre (scanstring u) = Some (str, r)" "length u \<le> length cs" for pre u
    using prepend_Some [OF that(1)] that(2) by blast
  show ?thesis
  proof (cases "c = CHR 0x22")
    case True
    with assms show ?thesis by simp
  next
    case quote: False
    show ?thesis
    proof (cases "c = CHR 0x5C")
      case False
      with quote assms have "prepend [c] (scanstring cs) = Some (str, r)"
        by (simp split: if_splits)
      from rec [OF this] show ?thesis by simp
    next
      case True
      with assms obtain e es where cs: "cs = e # es"
        by (cases cs) auto
      show ?thesis
      proof (cases "e = CHR ''u''")
        case False
        with True cs assms obtain ch where "prepend [ch] (scanstring es) = Some (str, r)"
          by (auto split: option.splits)
        from rec [OF this] cs show ?thesis by simp
      next
        case u: True
        with True cs assms obtain pre where
          "prepend pre (scanstring (drop 10 es)) = Some (str, r)
           \<or> prepend pre (scanstring (drop 4 es)) = Some (str, r)"
          by (auto split: option.splits if_splits)
        then show ?thesis
        proof
          assume p: "prepend pre (scanstring (drop 10 es)) = Some (str, r)"
          have "length (drop 10 es) \<le> length cs" using cs by simp
          from rec [OF p this] show ?thesis by blast
        next
          assume p: "prepend pre (scanstring (drop 4 es)) = Some (str, r)"
          have "length (drop 4 es) \<le> length cs" using cs by simp
          from rec [OF p this] show ?thesis by blast
        qed
      qed
    qed
  qed
qed

lemma scanstring_shorter:
  "scanstring s = Some (str, r) \<Longrightarrow> length r < length s"
proof (induction "length s" arbitrary: s str r rule: less_induct)
  case less
  show ?case
  proof (cases s)
    case Nil
    with less.prems show ?thesis by simp
  next
    case (Cons c cs)
    from scanstring_step [OF less.prems [unfolded Cons]]
    consider "r = cs" | t str' where "scanstring t = Some (str', r)" "length t \<le> length cs"
      by blast
    then show ?thesis
    proof cases
      case 1
      with Cons show ?thesis by simp
    next
      case 2
      from 2(2) Cons have "length t < length s" by simp
      from less.hyps [OF this 2(1)] 2(2) Cons show ?thesis by simp
    qed
  qed
qed

lemma scan_int_part_shorter:
  "scan_int_part s = Some (ip, r) \<Longrightarrow> length r < length s"
  by (auto simp: scan_int_part_def less_Suc_eq_le length_dropWhile_le split: list.splits if_splits)

lemma scan_frac_le:
  "scan_frac s = (fr, r) \<Longrightarrow> length r \<le> length s"
  by (auto simp: scan_frac_def le_Suc_eq length_dropWhile_le split: list.splits if_splits
           intro: le_SucI)

lemma scan_exp_le:
  "scan_exp s = Some (ex, r) \<Longrightarrow> length r \<le> length s"
proof -
  have tl: "length (dropWhile is_digit (tl cs)) \<le> Suc (length cs)" for cs :: string
    using length_dropWhile_le [of is_digit "tl cs"] by simp
  have id: "length (dropWhile is_digit cs) \<le> Suc (length cs)" for cs :: string
    using length_dropWhile_le [of is_digit cs] by simp
  show "scan_exp s = Some (ex, r) \<Longrightarrow> length r \<le> length s"
    by (auto simp: scan_exp_def Let_def tl id split: list.splits if_splits)
qed

lemma scan_number_shorter:
  assumes "scan_number s = Inr (v, r)"
  shows "length r < length s"
proof -
  define s1 where "s1 = (if s \<noteq> [] \<and> hd s = CHR ''-'' then tl s else s)"
  have s1: "length s1 \<le> length s" by (simp add: s1_def)
  from assms obtain ip s2 where ip: "scan_int_part s1 = Some (ip, s2)"
    by (auto simp: scan_number_def Let_def s1_def split: option.splits)
  obtain fr s3 where fr: "scan_frac s2 = (fr, s3)" by (cases "scan_frac s2")
  from assms ip fr have "r = s3 \<or> (\<exists>ex. scan_exp s3 = Some (ex, r))"
    by (auto simp: scan_number_def Let_def s1_def split: option.splits if_splits)
  then have "length r \<le> length s3"
    using scan_exp_le by auto
  with scan_int_part_shorter [OF ip] scan_frac_le [OF fr] s1 show ?thesis by simp
qed

lemma scan_constant_shorter:
  "scan_constant s = Inr (v, r) \<Longrightarrow> length r < length s"
  by (auto simp: scan_constant_def split: option.splits dest: literal_shorter)

lemma scan_atom_shorter:
  "scan_atom s = Inr (v, r) \<Longrightarrow> length r < length s"
  by (auto simp: scan_atom_def less_Suc_eq split: list.splits if_splits option.splits sum.splits
           dest: literal_shorter scanstring_shorter scan_number_shorter scan_constant_shorter)

lemma scan_shorter:
  "(\<forall>s v r. scan_once n s = Inr (v, r) \<longrightarrow> length r < length s)
   \<and> (\<forall>acc s v r. scan_array n acc s = Inr (v, r) \<longrightarrow> length r < length s)
   \<and> (\<forall>acc s v r. scan_object n acc s = Inr (v, r) \<longrightarrow> length r < length s)"
proof (induction n)
  case 0
  show ?case by simp
next
  case (Suc n)
  then have once: "\<And>s v r. scan_once n s = Inr (v, r) \<Longrightarrow> length r < length s"
    and array: "\<And>acc s v r. scan_array n acc s = Inr (v, r) \<Longrightarrow> length r < length s"
    and object: "\<And>acc s v r. scan_object n acc s = Inr (v, r) \<Longrightarrow> length r < length s"
    by blast+
  have 1: "length r < length s" if res: "scan_once (Suc n) s = Inr (v, r)" for s v r
  proof (cases s)
    case Nil
    with res show ?thesis by simp
  next
    case (Cons c cs)
    consider "c = CHR ''{''" | "c \<noteq> CHR ''{''" "c = CHR ''[''" | "c \<noteq> CHR ''{''" "c \<noteq> CHR ''[''"
      by blast
    then show ?thesis
    proof cases
      case 1
      with res Cons obtain q qs where q: "skip_ws cs = q # qs"
        by (cases "skip_ws cs") auto
      from res Cons 1 q have "r = qs \<or> scan_object n [] qs = Inr (v, r)"
        by (auto split: if_splits)
      then have "length r \<le> length qs"
        using object [of "[]" qs v r] by auto
      with skip_ws_Cons [OF q] Cons show ?thesis by simp
    next
      case 2
      with res Cons obtain q qs where q: "skip_ws cs = q # qs"
        by (cases "skip_ws cs") auto
      from res Cons 2 q have "r = qs \<or> scan_array n [] (q # qs) = Inr (v, r)"
        by (auto split: if_splits)
      then have "length r \<le> length qs"
        using array [of "[]" "q # qs" v r] by auto
      with skip_ws_Cons [OF q] Cons show ?thesis by simp
    next
      case 3
      with res Cons have "scan_atom s = Inr (v, r)" by simp
      then show ?thesis by (rule scan_atom_shorter)
    qed
  qed
  have 2: "length r < length s" if res: "scan_array (Suc n) acc s = Inr (v, r)" for acc s v r
  proof -
    from res obtain v1 r1 where first: "scan_once n s = Inr (v1, r1)"
      by (cases "scan_once n s") auto
    with res obtain c cs where c: "skip_ws r1 = c # cs"
      by (cases "skip_ws r1") auto
    from res first c have "r = cs \<or> scan_array n (acc @ [v1]) (skip_ws cs) = Inr (v, r)"
      by (auto split: if_splits)
    then have "length r \<le> length cs"
      using array [of "acc @ [v1]" "skip_ws cs" v r] skip_ws_le [of cs] by auto
    with skip_ws_Cons [OF c] once [OF first] show ?thesis by simp
  qed
  have 3: "length r < length s" if res: "scan_object (Suc n) acc s = Inr (v, r)" for acc s v r
  proof -
    from res obtain key r0 where key: "scanstring s = Some (key, r0)"
      by (cases "scanstring s") auto
    with res obtain c cs where c: "skip_ws r0 = c # cs"
      by (cases "skip_ws r0") auto
    with res key have colon: "c = CHR '':''"
      by (auto split: if_splits)
    with res key c obtain v1 r2 where val: "scan_once n (skip_ws cs) = Inr (v1, r2)"
      by (cases "scan_once n (skip_ws cs)") auto
    with res key c colon obtain d ds where d: "skip_ws r2 = d # ds"
      by (cases "skip_ws r2") auto
    have "length r \<le> length ds"
    proof (cases "d = CHR ''}''")
      case True
      with res key c colon val d show ?thesis by simp
    next
      case False
      with res key c colon val d obtain q qs where q: "skip_ws ds = q # qs"
        by (cases "skip_ws ds") (auto split: if_splits)
      with False res key c colon val d
      have "scan_object n (dict_set acc key v1) qs = Inr (v, r)"
        by (auto split: if_splits)
      from object [OF this] skip_ws_Cons [OF q] show ?thesis by simp
    qed
    with skip_ws_Cons [OF d] once [OF val] skip_ws_le [of cs] skip_ws_Cons [OF c]
      scanstring_shorter [OF key]
    show ?thesis by simp
  qed
  from 1 2 3 show ?case by blast
qed


lemma scan_array_shorter: "scan_array n acc s = Inr (v, r) \<Longrightarrow> length r < length s"
  using scan_shorter by blast

lemma scan_object_shorter: "scan_object n acc s = Inr (v, r) \<Longrightarrow> length r < length s"
  using scan_shorter by blast




section \<open>What the parsing extractor returns\<close>

lemma structured_simps:
  "structured (PList xs)" "structured (PDict kvs)" "\<not> structured PNone"
  "\<not> structured (PBool b)" "\<not> structured (PInt i)" "\<not> structured (PFloat f)"
  "\<not> structured (PStr s)"
  by (simp_all add: structured_def)

lemma fenced_at_opens: "fenced_at ci t = Some g \<Longrightarrow> opens g"
  by (auto simp: fenced_at_def opens_def split: option.splits list.splits if_splits)

lemma search_fenced_opens: "search_fenced ci s = Some g \<Longrightarrow> opens g"
  by (induction s) (auto split: option.splits dest: fenced_at_opens)

lemma bare_at_opens: "bare_at t = Some g \<Longrightarrow> opens g"
  by (auto simp: bare_at_def opens_def split: list.splits if_splits)

lemma search_bare_opens: "search_bare s = Some g \<Longrightarrow> opens g"
  by (induction s) (auto split: option.splits dest: bare_at_opens)

lemma scan_structured:
  "(\<forall>acc s v r. scan_array n acc s = Inr (v, r) \<longrightarrow> structured v)
   \<and> (\<forall>acc s v r. scan_object n acc s = Inr (v, r) \<longrightarrow> structured v)"
proof (induction n)
  case 0
  show ?case by simp
next
  case (Suc n)
  then have array: "\<And>acc s v r. scan_array n acc s = Inr (v, r) \<Longrightarrow> structured v"
    and object: "\<And>acc s v r. scan_object n acc s = Inr (v, r) \<Longrightarrow> structured v"
    by blast+
  have 1: "structured v" if "scan_array (Suc n) acc s = Inr (v, r)" for acc s v r
    using that
    by (auto simp: structured_simps split: sum.splits list.splits if_splits dest: array)
  have 2: "structured v" if "scan_object (Suc n) acc s = Inr (v, r)" for acc s v r
    using that
    apply (auto simp: structured_simps split: option.splits sum.splits list.splits if_splits)
    apply (erule object)
    done
  from 1 2 show ?case by blast
qed

lemma scan_once_structured:
  assumes "scan_once n g = Inr (v, r)" "opens g"
  shows "structured v"
proof (cases n)
  case 0
  with assms show ?thesis by simp
next
  case (Suc m)
  from assms(2) obtain c cs where g: "g = c # cs" "c = CHR ''{'' \<or> c = CHR ''[''"
    by (cases g) (auto simp: opens_def)
  from assms(1) Suc g have
    "v = PDict [] \<or> v = PList []
     \<or> (\<exists>acc s. scan_array m acc s = Inr (v, r)) \<or> (\<exists>acc s. scan_object m acc s = Inr (v, r))"
    by (auto split: list.splits if_splits)
  then show ?thesis
    using scan_structured [of m] structured_simps(1,2) by blast
qed

lemma json_loads_structured:
  assumes "json_loads (PStr g) = Inr v" "opens g"
  shows "structured v"
proof -
  from assms(2) have "skip_ws g = g"
    by (cases g) (auto simp: opens_def skip_ws_def is_json_ws_def)
  with assms(1) obtain r where "scan_once (2 * length g + 1) g = Inr (v, r)"
    by (auto simp: json_loads_def split: sum.splits if_splits)
  from scan_once_structured [OF this assms(2)] show ?thesis .
qed

lemma try_loads_structured:
  "try_loads g = Inr (Some v) \<Longrightarrow> opens g \<Longrightarrow> structured v"
  by (auto simp: try_loads_def split: sum.splits if_splits dest: json_loads_structured)

lemma parse_bare_result:
  "parse_bare s = Inr v \<Longrightarrow> v = PNone \<or> structured v"
  by (auto simp: parse_bare_def split: option.splits sum.splits
           dest: try_loads_structured search_bare_opens)

lemma parse_json_blocks_result:
  assumes "parse_json_blocks x = Inr v"
  shows "v = PNone \<or> structured v"
proof (cases x)
  case (PStr s)
  with assms show ?thesis
    by (auto simp: parse_json_blocks_def split: option.splits sum.splits
             dest: try_loads_structured search_fenced_opens parse_bare_result)
qed (use assms in \<open>auto simp: parse_json_blocks_def structured_simps\<close>)

lemma parse_json_blocks_fixed:
  "v = PNone \<or> structured v \<Longrightarrow> parse_json_blocks v = Inr v"
  by (cases v) (auto simp: parse_json_blocks_def structured_simps)


lemma parse_json_blocks_twice:
  "bind (parse_json_blocks x) parse_json_blocks = parse_json_blocks x"
proof (cases "parse_json_blocks x")
  case (Inl err)
  then show ?thesis by (simp add: bind_def)
next
  case (Inr v)
  from parse_json_blocks_fixed [OF parse_json_blocks_result [OF Inr]] Inr
  show ?thesis by (simp add: bind_def)
qed

text \<open>
  C7, as the code has it. \<^verbatim>\<open>_parse_json_blocks\<close> returns a list or a dictionary
  unchanged, and parsing its result again changes nothing: what it returns is
  \<^verbatim>\<open>None\<close>, a list or a dictionary, and each of these is returned as it is (an
  exception of the first call is the result of both sides).
  \<^verbatim>\<open>_extract_json_in_backticks\<close> is the search alone: it returns \<^verbatim>\<open>None\<close> for every
  payload that is not text, a list or a dictionary included.
\<close>

theorem parse_json_blocks_idempotent:
  "parse_json_blocks (PList xs) = Inr (PList xs)
   \<and> parse_json_blocks (PDict kvs) = Inr (PDict kvs)
   \<and> bind (parse_json_blocks x) parse_json_blocks = parse_json_blocks x
   \<and> (\<forall>v. parse_json_blocks x = Inr v \<longrightarrow> parse_json_blocks v = Inr v)
   \<and> ((\<forall>s. y \<noteq> PStr s) \<longrightarrow> extract_json_in_backticks y = PNone)"
proof -
  have "parse_json_blocks (PList xs) = Inr (PList xs)"
    and "parse_json_blocks (PDict kvs) = Inr (PDict kvs)"
    by (simp_all add: parse_json_blocks_def)
  moreover have "parse_json_blocks v = Inr v" if "parse_json_blocks x = Inr v" for v
    using parse_json_blocks_fixed [OF parse_json_blocks_result [OF that]] .
  moreover have "extract_json_in_backticks y = PNone" if "\<forall>s. y \<noteq> PStr s"
    using that by (cases y) (simp_all add: extract_json_in_backticks_def)
  ultimately show ?thesis
    using parse_json_blocks_twice [of x] by blast
qed

lemma parse_fenced:
  assumes "search_fenced False s = Some g" "json_loads (PStr g) = Inr v"
  shows "parse_json_blocks (PStr s) = Inr v"
  by (simp add: parse_json_blocks_def try_loads_def assms)

lemma search_scenario:
  \<open>search_fenced False
     (''Sure! Here'' @ [CHR 0x27] @ ''s your data: ```json'' @ [CHR 0x0A]
       @ ''[{"place":"Hampi"}]'' @ [CHR 0x0A] @ ''```'') = Some ''[{"place":"Hampi"}]''\<close>
  by (simp add: fenced_at_def closes_fence_def skip_space_def is_space_def)

lemma loads_scenario:
  \<open>json_loads (PStr ''[{"place":"Hampi"}]'') = Inr (PList [PDict [(''place'', PStr ''Hampi'')]])\<close>
  by (simp add: json_eval)

lemma parse_scenario:
  \<open>parse_json_blocks (PStr
     (''Sure! Here'' @ [CHR 0x27] @ ''s your data: ```json'' @ [CHR 0x0A]
       @ ''[{"place":"Hampi"}]'' @ [CHR 0x0A] @ ''```''))
   = Inr (PList [PDict [(''place'', PStr ''Hampi'')]])\<close>
  by (rule parse_fenced [OF search_scenario loads_scenario])

theorem parse_json_blocks_idempotent_witness:
  \<open>parse_json_blocks (PList [PDict [(''place'', PStr ''Hampi'')]])
     = Inr (PList [PDict [(''place'', PStr ''Hampi'')]])
   \<and> parse_json_blocks (PStr
     (''Sure! Here'' @ [CHR 0x27] @ ''s your data: ```json'' @ [CHR 0x0A]
       @ ''[{"place":"Hampi"}]'' @ [CHR 0x0A] @ ''```''))
     = Inr (PList [PDict [(''place'', PStr ''Hampi'')]])
   \<and> extract_json_in_backticks (PDict [(''place'', PStr ''Hampi'')]) = PNone\<close>
proof -
  note inst = parse_json_blocks_idempotent
    [of "[PDict [(''place'', PStr ''Hampi'')]]" "[]"
        \<open>PStr (''Sure! Here'' @ [CHR 0x27] @ ''s your data: ```json'' @ [CHR 0x0A]
       @ ''[{"place":"Hampi"}]'' @ [CHR 0x0A] @ ''```'')\<close>
        "PDict [(''place'', PStr ''Hampi'')]"]
  have again: "parse_json_blocks (PList [PDict [(''place'', PStr ''Hampi'')]])
      = Inr (PList [PDict [(''place'', PStr ''Hampi'')]])"
    by (rule inst [THEN conjunct2, THEN conjunct2, THEN conjunct2, THEN conjunct1,
                   THEN spec, THEN mp]) (rule parse_scenario)
  have "\<forall>s. PDict [(''place'', PStr ''Hampi'')] \<noteq> PStr s"
    by simp
  then have none: "extract_json_in_backticks (PDict [(''place'', PStr ''Hampi'')]) = PNone"
    by (rule inst [THEN conjunct2, THEN conjunct2, THEN conjunct2, THEN conjunct2, THEN mp])
  from again parse_scenario none show ?thesis by (intro conjI)
qed

text \<open>
  The claim says that the extractor returns a structured payload unchanged and that
  extracting twice is extracting once. \<^verbatim>\<open>_extract_json_in_backticks\<close> returns
  \<^verbatim>\<open>None\<close> for a list, and on a fenced block that holds another fenced block the
  second extraction returns the inner span.
\<close>

theorem extract_json_in_backticks_not_idempotent:
  "extract_json_in_backticks (PList [PDict [(''place'', PStr ''Hampi'')]]) = PNone
   \<and> extract_json_in_backticks (PStr ''```json {```json [1] ``` } ```'')
       = PStr ''{```json [1] ``` }''
   \<and> extract_json_in_backticks (PStr ''{```json [1] ``` }'') = PStr ''[1]''"
  by (simp add: span_eval)

section \<open>An integer literal that is too long\<close>

lemma lower_ascii_backtick: "lower_ascii c = CHR 0x60 \<Longrightarrow> c = CHR 0x60"
proof (rule ccontr)
  assume low: "lower_ascii c = CHR 0x60" and other: "c \<noteq> CHR 0x60"
  then have upper: "65 \<le> (of_char c :: nat)" "(of_char c :: nat) \<le> 90"
    and eq: "char_of ((of_char c :: nat) + 32) = CHR 0x60"
    by (auto simp: lower_ascii_def Let_def split: if_splits)
  from eq have "(of_char (char_of ((of_char c :: nat) + 32) :: char) :: nat) = of_char (CHR 0x60)"
    by simp
  with upper show False by simp
qed

lemma no_fence:
  "CHR 0x60 \<notin> set s \<Longrightarrow> search_fenced ci s = None"
proof (induction s)
  case Nil
  show ?case by simp
next
  case (Cons c cs)
  then have "c \<noteq> CHR 0x60" by auto
  then have "fenced_at ci (c # cs) = None"
    using lower_ascii_backtick [of c] by (auto simp: fenced_at_def lower_ascii_def)
  with Cons show ?case by simp
qed

lemma greedy_to_end: "greedy_span cl (xs @ [cl]) = Some (xs @ [cl])"
  by (induction xs) simp_all

lemma search_bare_bracket:
  "search_bare (CHR ''['' # xs @ '']'') = Some (CHR ''['' # xs @ '']'')"
  using greedy_to_end [of "CHR '']''" xs] by (simp add: bare_at_def)

lemma scan_number_ones:
  assumes "int_max_str_digits < n"
  shows "scan_number (replicate n (CHR ''1'') @ '']'') = Inl TooManyDigits"
proof -
  from assms obtain m where n: "n = Suc m" by (cases n) auto
  have digits: "takeWhile is_digit (replicate m (CHR ''1'') @ '']'') = replicate m (CHR ''1'')"
    "dropWhile is_digit (replicate m (CHR ''1'') @ '']'') = '']''"
    by (induction m) (simp_all add: is_digit_def)
  have "scan_int_part (replicate n (CHR ''1'') @ '']'')
          = Some (replicate n (CHR ''1''), '']'')"
    by (simp add: n scan_int_part_def digits is_digit_def)
  with assms show ?thesis
    by (simp add: scan_number_def n scan_frac_def scan_exp_def Let_def)
qed

lemma scan_atom_ones:
  assumes "int_max_str_digits < n"
  shows "scan_atom (replicate n (CHR ''1'') @ '']'') = Inl TooManyDigits"
proof -
  from assms obtain m where n: "n = Suc m" by (cases n) auto
  from scan_number_ones [OF assms] show ?thesis
    by (simp add: scan_atom_def literal_def n)
qed

lemma json_loads_ones:
  assumes "int_max_str_digits < n"
  shows "json_loads (PStr (CHR ''['' # replicate n (CHR ''1'') @ '']'')) = Inl ValueError"
proof -
  from assms obtain m where n: "n = Suc m" by (cases n) auto
  let ?s = "replicate n (CHR ''1'') @ '']''"
  have ws: "skip_ws ?s = ?s" "skip_ws (CHR ''['' # ?s) = CHR ''['' # ?s"
    by (simp_all add: n skip_ws_def is_json_ws_def)
  have atom: "scan_once (Suc k) ?s = Inl TooManyDigits" for k
    using scan_atom_ones [OF assms] by (simp add: n)
  have "scan_once (Suc (Suc (Suc k))) (CHR ''['' # ?s) = Inl TooManyDigits" for k
    using atom [of k] ws(1) by (simp add: n)
  from this [of "2 * length ?s"] ws(2) show ?thesis
    by (simp add: json_loads_def)
qed

lemma parse_unfenced:
  assumes "search_fenced False s = None" "search_bare s = Some g"
    "json_loads (PStr g) = Inl ValueError"
  shows "parse_json_blocks (PStr s) = Inl ValueError"
  by (simp add: parse_json_blocks_def parse_bare_def try_loads_def assms)

lemma extract_unfenced:
  assumes "search_fenced True s = None" "search_bare s = Some g"
  shows "extract_json_in_backticks (PStr s) = PStr g"
  by (simp add: extract_json_in_backticks_def assms)

lemma loads_or_empty_raises:
  assumes "extract_json_in_backticks (PStr s) = PStr s" "json_loads (PStr s) = Inl err"
  shows "loads_or_empty (PStr s) = PDict []"
  by (simp add: loads_or_empty_def py_or_def assms)

text \<open>
  Called directly with a text that holds an integer literal of more than 4300 digits,
  \<^verbatim>\<open>_parse_json_blocks\<close> lets the \<^verbatim>\<open>ValueError\<close> of the conversion through, where the
  normalizers return their default. Its one call site (\<^verbatim>\<open>main.py\<close>, line 175) passes
  the list that \<^verbatim>\<open>Tripcrew.run\<close> returned, never a text.
\<close>

lemma long_integer_raises:
  "parse_json_blocks (PStr (CHR ''['' # replicate 4301 (CHR ''1'') @ '']'')) = Inl ValueError
   \<and> extract_json_in_backticks (PStr (CHR ''['' # replicate 4301 (CHR ''1'') @ '']''))
       = PStr (CHR ''['' # replicate 4301 (CHR ''1'') @ '']'')
   \<and> format_safety_info (PStr (CHR ''['' # replicate 4301 (CHR ''1'') @ '']'')) = PDict []"
proof -
  let ?s = "CHR ''['' # replicate 4301 (CHR ''1'') @ '']''"
  have fence: "search_fenced ci ?s = None" for ci
    by (rule no_fence) simp
  have bare: "search_bare ?s = Some ?s"
    by (rule search_bare_bracket)
  have loads: "json_loads (PStr ?s) = Inl ValueError"
    by (rule json_loads_ones) (simp add: int_max_str_digits_def)
  have found: "extract_json_in_backticks (PStr ?s) = PStr ?s"
    by (rule extract_unfenced [OF fence bare])
  have "format_safety_info (PStr ?s) = PDict []"
    unfolding format_safety_info_def by (rule loads_or_empty_raises [OF found loads])
  with parse_unfenced [OF fence bare loads] found show ?thesis
    by (intro conjI)
qed

section \<open>No parse error leaves the extractors\<close>











section \<open>Weather in the city-selection stage\<close>

lemma format_places_dicts:
  "format_places xs = Inr ys \<Longrightarrow> \<forall>y \<in> set ys. \<exists>kvs. y = PDict kvs"
proof (induction xs arbitrary: ys)
  case Nil
  then show ?case by simp
next
  case (Cons x xs)
  from Cons.prems obtain r rest where
    r: "format_place x = Inr r" and rest: "format_places xs = Inr rest" and ys: "ys = r # rest"
    by (auto split: sum.splits)
  from r have "\<exists>kvs. r = PDict kvs"
    by (cases x) (auto simp: format_place_def)
  with Cons.IH [OF rest] ys show ?case by simp
qed

lemma format_city_suggestions_dicts:
  assumes "format_city_suggestions places_data = Inr v"
  shows "\<exists>ys. v = PList ys \<and> (\<forall>y \<in> set ys. \<exists>kvs. y = PDict kvs)"
proof -
  have "\<exists>xs ys. format_places xs = Inr ys \<and> v = PList ys \<or> v = PList []"
    using assms
    by (cases places_data)
       (auto simp: format_city_suggestions_def map_sum_def split: sum.splits)
  then show ?thesis
    using format_places_dicts by fastforce
qed

lemma attach_weather_dict:
  "attach_weather api_key str_of http_get_json (PDict kvs) =
     Inr (if truthy (dict_get kvs ''place'' PNone)
          then PDict (dict_set kvs ''weather''
                 (if truthy (get_current_weather api_key str_of http_get_json
                               (dict_get kvs ''place'' PNone))
                  then get_current_weather api_key str_of http_get_json
                         (dict_get kvs ''place'' PNone)
                  else PDict []))
          else PDict kvs)"
  by (simp add: attach_weather_def Let_def)

lemma attach_all_elementwise:
  assumes "\<forall>p \<in> set places. \<exists>kvs. p = PDict kvs"
  shows "\<exists>qs. attach_all api_key str_of http_get_json places = Inr qs
           \<and> length qs = length places
           \<and> (\<forall>i < length places.
                 attach_weather api_key str_of http_get_json (places ! i) = Inr (qs ! i))"
  using assms
proof (induction places)
  case Nil
  then show ?case by simp
next
  case (Cons p places)
  then obtain kvs where p: "p = PDict kvs" by auto
  from attach_weather_dict [of api_key str_of http_get_json kvs] p obtain q where
    q: "attach_weather api_key str_of http_get_json p = Inr q" by simp
  from Cons obtain qs where qs: "attach_all api_key str_of http_get_json places = Inr qs"
    "length qs = length places"
    "\<forall>i < length places. attach_weather api_key str_of http_get_json (places ! i) = Inr (qs ! i)"
    by auto
  have "attach_all api_key str_of http_get_json (p # places) = Inr (q # qs)"
    using q qs(1) by simp
  moreover have "\<forall>i < length (p # places).
      attach_weather api_key str_of http_get_json ((p # places) ! i) = Inr ((q # qs) ! i)"
    using q qs(3) by (auto simp: nth_Cons split: nat.split)
  ultimately show ?case using qs(2) by auto
qed

lemma weather_snapshot_shape:
  assumes "weather_snapshot data = Inr w"
  shows "\<exists>t d h s. w = PDict [(''temperature'', t), (''description'', d),
                               (''humidity'', h), (''wind_speed'', s)]"
  using assms by (auto simp: weather_snapshot_def bind_def split: sum.splits)

lemma get_current_weather_shape:
  "get_current_weather api_key str_of http_get_json city = PNone
   \<or> (\<exists>t d h s. get_current_weather api_key str_of http_get_json city
         = PDict [(''temperature'', t), (''description'', d),
                  (''humidity'', h), (''wind_speed'', s)])"
proof (cases "get_current_weather api_key str_of http_get_json city = PNone")
  case True
  then show ?thesis by simp
next
  case False
  then obtain body where
    "weather_snapshot body = Inr (get_current_weather api_key str_of http_get_json city)"
    by (auto simp: get_current_weather_def bind_def split: option.splits if_splits sum.splits)
  from weather_snapshot_shape [OF this] show ?thesis by blast
qed

text \<open>
  The URL the lookup builds starts with a bracket, not with a scheme, so the request
  raises for every city and key, and the lookup returns \<^verbatim>\<open>None\<close>.
  (\<^verbatim>\<open>OpenWeatherTool._run\<close> builds the URL of the same service from the plain address.)
\<close>

lemma requests_get_weather_url:
  "requests_get http_get_json (weather_url city key) = Inl RequestException"
  by (simp add: requests_get_def weather_url_def skip_space_def is_space_def lower_ascii_def)

lemma lookup_fails:
  "get_current_weather api_key str_of http_get_json city = PNone"
  by (simp add: get_current_weather_def requests_get_weather_url bind_def split: option.splits)

text \<open>
  C9, as the code has it. When the weather gate does not hold, the stage returns the
  formatted destinations as they are, with no weather attached. When it holds, the
  result has one record for each formatted destination, in order: a destination with
  an empty name is unchanged, and a destination with a name gets a \<open>weather\<close> slot that
  holds what the lookup returned, or the empty mapping when the lookup returned
  \<^verbatim>\<open>None\<close>; so after a failed lookup the slot is present and empty, not absent. The
  lookup returns \<^verbatim>\<open>None\<close> or a snapshot of four fields, never an error value, and no
  exception escapes from it: the stage raises only where formatting the destinations
  raises.
\<close>

theorem weather_attached_behind_gate:
  "(\<not> should_show_weather today inp \<longrightarrow>
      Tripcrew_run today api_key str_of http_get_json inp task_output
        = format_city_suggestions task_output)
   \<and> (should_show_weather today inp \<and> format_city_suggestions task_output = Inr (PList places) \<longrightarrow>
      (\<exists>qs. Tripcrew_run today api_key str_of http_get_json inp task_output = Inr (PList qs)
          \<and> length qs = length places
          \<and> (\<forall>i < length places. \<exists>kvs. places ! i = PDict kvs
                \<and> qs ! i =
                    (if truthy (dict_get kvs ''place'' PNone)
                     then PDict (dict_set kvs ''weather''
                            (if truthy (get_current_weather api_key str_of http_get_json
                                          (dict_get kvs ''place'' PNone))
                             then get_current_weather api_key str_of http_get_json
                                    (dict_get kvs ''place'' PNone)
                             else PDict []))
                     else PDict kvs))))
   \<and> (\<forall>err. Tripcrew_run today api_key str_of http_get_json inp task_output = Inl err \<longrightarrow>
      format_city_suggestions task_output = Inl err)
   \<and> (truthy (dict_get kvs ''place'' PNone)
        \<and> get_current_weather api_key str_of http_get_json (dict_get kvs ''place'' PNone) = PNone \<longrightarrow>
      attach_weather api_key str_of http_get_json (PDict kvs)
        = Inr (PDict (dict_set kvs ''weather'' (PDict []))))
   \<and> (get_current_weather api_key str_of http_get_json city = PNone
        \<or> (\<exists>t d h s. get_current_weather api_key str_of http_get_json city
              = PDict [(''temperature'', t), (''description'', d),
                       (''humidity'', h), (''wind_speed'', s)]))"
proof -
  have closed: "Tripcrew_run today api_key str_of http_get_json inp task_output
                  = format_city_suggestions task_output"
    if "\<not> should_show_weather today inp"
    using that by (simp add: Tripcrew_run_def split: sum.splits)
  have opened: "\<exists>qs. Tripcrew_run today api_key str_of http_get_json inp task_output = Inr (PList qs)
          \<and> length qs = length places
          \<and> (\<forall>i < length places. \<exists>kvs. places ! i = PDict kvs
                \<and> qs ! i =
                    (if truthy (dict_get kvs ''place'' PNone)
                     then PDict (dict_set kvs ''weather''
                            (if truthy (get_current_weather api_key str_of http_get_json
                                          (dict_get kvs ''place'' PNone))
                             then get_current_weather api_key str_of http_get_json
                                    (dict_get kvs ''place'' PNone)
                             else PDict []))
                     else PDict kvs))"
    if gate: "should_show_weather today inp"
      and formatted: "format_city_suggestions task_output = Inr (PList places)"
  proof -
    from format_city_suggestions_dicts [OF formatted]
    have dicts: "\<forall>p \<in> set places. \<exists>kvs. p = PDict kvs" by simp
    from attach_all_elementwise [OF dicts, of api_key str_of http_get_json] obtain qs where
      qs: "attach_all api_key str_of http_get_json places = Inr qs" "length qs = length places"
        "\<forall>i < length places.
           attach_weather api_key str_of http_get_json (places ! i) = Inr (qs ! i)"
      by blast
    have run: "Tripcrew_run today api_key str_of http_get_json inp task_output = Inr (PList qs)"
      using gate formatted qs(1) by (simp add: Tripcrew_run_def)
    have "\<exists>kvs. places ! i = PDict kvs
                \<and> qs ! i =
                    (if truthy (dict_get kvs ''place'' PNone)
                     then PDict (dict_set kvs ''weather''
                            (if truthy (get_current_weather api_key str_of http_get_json
                                          (dict_get kvs ''place'' PNone))
                             then get_current_weather api_key str_of http_get_json
                                    (dict_get kvs ''place'' PNone)
                             else PDict []))
                     else PDict kvs)"
      if i: "i < length places" for i
    proof -
      from dicts i obtain kvs where kvs: "places ! i = PDict kvs"
        using nth_mem by blast
      from qs(3) i have "attach_weather api_key str_of http_get_json (places ! i) = Inr (qs ! i)"
        by blast
      then show ?thesis
        unfolding kvs attach_weather_dict by simp
    qed
    with run qs(2) show ?thesis by blast
  qed
  have escapes: "format_city_suggestions task_output = Inl err"
    if run: "Tripcrew_run today api_key str_of http_get_json inp task_output = Inl err" for err
  proof (cases "format_city_suggestions task_output")
    case (Inl e)
    with run show ?thesis by (simp add: Tripcrew_run_def)
  next
    case (Inr v)
    from format_city_suggestions_dicts [OF Inr] obtain ys where
      v: "v = PList ys" and ds: "\<forall>y \<in> set ys. \<exists>kvs. y = PDict kvs" by blast
    from attach_all_elementwise [OF ds, of api_key str_of http_get_json] obtain ps where
      "attach_all api_key str_of http_get_json ys = Inr ps" by blast
    with run Inr v show ?thesis
      by (simp add: Tripcrew_run_def split: if_splits)
  qed
  have failed: "attach_weather api_key str_of http_get_json (PDict kvs)
                  = Inr (PDict (dict_set kvs ''weather'' (PDict [])))"
    if "truthy (dict_get kvs ''place'' PNone)"
       "get_current_weather api_key str_of http_get_json (dict_get kvs ''place'' PNone) = PNone"
    using that by (simp add: attach_weather_dict)
  from closed opened escapes failed
    get_current_weather_shape [of api_key str_of http_get_json city]
  show ?thesis by blast
qed

lemma gate_open_example:
  "should_show_weather \<lparr>year = 2025, month = 4, day = 10\<rparr>
     \<lparr>total_budget = None, budget_range = None,
      start_date = Some ''2025-04-12'', planning_style = Some ''holiday_based''\<rparr>"
proof -
  have "strptime_ymd ''2025-04-12'' = Some \<lparr>year = 2025, month = 4, day = 12\<rparr>"
    by (simp add: date_eval)
  moreover have "toordinal \<lparr>year = 2025, month = 4, day = 12\<rparr> = 739353"
    "toordinal \<lparr>year = 2025, month = 4, day = 10\<rparr> = 739351"
    by (simp_all add: date_eval)
  ultimately show ?thesis
    by (simp add: should_show_weather_def)
qed

lemma gate_closed_example:
  "\<not> should_show_weather \<lparr>year = 2025, month = 4, day = 10\<rparr>
     \<lparr>total_budget = None, budget_range = None,
      start_date = Some ''2025-04-12'', planning_style = Some ''season_based''\<rparr>"
proof -
  have "strptime_ymd ''2025-04-12'' = Some \<lparr>year = 2025, month = 4, day = 12\<rparr>"
    by (simp add: date_eval)
  then show ?thesis
    by (simp add: should_show_weather_def)
qed

lemma extract_two:
  \<open>extract_json_in_backticks (PStr ''[{"place": ""}, {"place": "Goa"}]'')
     = PStr ''[{"place": ""}, {"place": "Goa"}]''\<close>
  by (simp add: span_eval)

lemma loads_two:
  \<open>json_loads (PStr ''[{"place": ""}, {"place": "Goa"}]'')
     = Inr (PList [PDict [(''place'', PStr '''')], PDict [(''place'', PStr ''Goa'')]])\<close>
  by (simp add: json_eval)

lemma format_two:
  \<open>format_city_suggestions (PStr ''[{"place": ""}, {"place": "Goa"}]'') =
     Inr (PList
       [PDict
          [(''place'', PStr ''''),
           (''reason'', PStr ''No reason provided.''),
           (''weather_suitability'', PStr [CHR 0xE2, CHR 0x80, CHR 0x94]),
           (''travel_cost_estimate'', PDict []),
           (''accommodation_range'', PStr [CHR 0xE2, CHR 0x80, CHR 0x94]),
           (''safety_rating'', PStr [CHR 0xE2, CHR 0x80, CHR 0x94]),
           (''accessibility'', PStr [CHR 0xE2, CHR 0x80, CHR 0x94]),
           (''permit_required'', PStr [CHR 0xE2, CHR 0x80, CHR 0x94]),
           (''photos'', PList [])],
        PDict
          [(''place'', PStr ''Goa''),
           (''reason'', PStr ''No reason provided.''),
           (''weather_suitability'', PStr [CHR 0xE2, CHR 0x80, CHR 0x94]),
           (''travel_cost_estimate'', PDict []),
           (''accommodation_range'', PStr [CHR 0xE2, CHR 0x80, CHR 0x94]),
           (''safety_rating'', PStr [CHR 0xE2, CHR 0x80, CHR 0x94]),
           (''accessibility'', PStr [CHR 0xE2, CHR 0x80, CHR 0x94]),
           (''permit_required'', PStr [CHR 0xE2, CHR 0x80, CHR 0x94]),
           (''photos'', PList [])]])\<close>
  by (simp add: format_city_suggestions_def extract_two loads_two py_or_def py_iter_def
        format_place_def dict_get_def)

theorem weather_attached_behind_gate_witness:
  \<open>Tripcrew_run \<lparr>year = 2025, month = 4, day = 10\<rparr> (Some ''key'') text_only service_down
     \<lparr>total_budget = None, budget_range = None,
      start_date = Some ''2025-04-12'', planning_style = Some ''season_based''\<rparr>
     (PStr ''[{"place": ""}, {"place": "Goa"}]'')
   = format_city_suggestions (PStr ''[{"place": ""}, {"place": "Goa"}]'')
   \<and> Tripcrew_run \<lparr>year = 2025, month = 4, day = 10\<rparr> (Some ''key'') text_only service_down
     \<lparr>total_budget = None, budget_range = None,
      start_date = Some ''2025-04-12'', planning_style = Some ''holiday_based''\<rparr>
     (PStr ''[{"place": ""}, {"place": "Goa"}]'')
   = Inr (PList
       [PDict
          [(''place'', PStr ''''),
           (''reason'', PStr ''No reason provided.''),
           (''weather_suitability'', PStr [CHR 0xE2, CHR 0x80, CHR 0x94]),
           (''travel_cost_estimate'', PDict []),
           (''accommodation_range'', PStr [CHR 0xE2, CHR 0x80, CHR 0x94]),
           (''safety_rating'', PStr [CHR 0xE2, CHR 0x80, CHR 0x94]),
           (''accessibility'', PStr [CHR 0xE2, CHR 0x80, CHR 0x94]),
           (''permit_required'', PStr [CHR 0xE2, CHR 0x80, CHR 0x94]),
           (''photos'', PList [])],
        PDict
          [(''place'', PStr ''Goa''),
           (''reason'', PStr ''No reason provided.''),
           (''weather_suitability'', PStr [CHR 0xE2, CHR 0x80, CHR 0x94]),
           (''travel_cost_estimate'', PDict []),
           (''accommodation_range'', PStr [CHR 0xE2, CHR 0x80, CHR 0x94]),
           (''safety_rating'', PStr [CHR 0xE2, CHR 0x80, CHR 0x94]),
           (''accessibility'', PStr [CHR 0xE2, CHR 0x80, CHR 0x94]),
           (''permit_required'', PStr [CHR 0xE2, CHR 0x80, CHR 0x94]),
           (''photos'', PList []),
           (''weather'', PDict [])]])\<close>
proof -
  let ?today = "\<lparr>year = 2025, month = 4, day = 10\<rparr>"
  let ?out = \<open>PStr ''[{"place": ""}, {"place": "Goa"}]''\<close>
  let ?a = "PDict
          [(''place'', PStr ''''),
           (''reason'', PStr ''No reason provided.''),
           (''weather_suitability'', PStr [CHR 0xE2, CHR 0x80, CHR 0x94]),
           (''travel_cost_estimate'', PDict []),
           (''accommodation_range'', PStr [CHR 0xE2, CHR 0x80, CHR 0x94]),
           (''safety_rating'', PStr [CHR 0xE2, CHR 0x80, CHR 0x94]),
           (''accessibility'', PStr [CHR 0xE2, CHR 0x80, CHR 0x94]),
           (''permit_required'', PStr [CHR 0xE2, CHR 0x80, CHR 0x94]),
           (''photos'', PList [])]"
  let ?b = "PDict
          [(''place'', PStr ''Goa''),
           (''reason'', PStr ''No reason provided.''),
           (''weather_suitability'', PStr [CHR 0xE2, CHR 0x80, CHR 0x94]),
           (''travel_cost_estimate'', PDict []),
           (''accommodation_range'', PStr [CHR 0xE2, CHR 0x80, CHR 0x94]),
           (''safety_rating'', PStr [CHR 0xE2, CHR 0x80, CHR 0x94]),
           (''accessibility'', PStr [CHR 0xE2, CHR 0x80, CHR 0x94]),
           (''permit_required'', PStr [CHR 0xE2, CHR 0x80, CHR 0x94]),
           (''photos'', PList [])]"
  have unchanged: "Tripcrew_run ?today (Some ''key'') text_only service_down
     \<lparr>total_budget = None, budget_range = None,
      start_date = Some ''2025-04-12'', planning_style = Some ''season_based''\<rparr> ?out
     = format_city_suggestions ?out"
    by (rule weather_attached_behind_gate [THEN conjunct1, THEN mp]) (rule gate_closed_example)
  have "should_show_weather ?today
     \<lparr>total_budget = None, budget_range = None,
      start_date = Some ''2025-04-12'', planning_style = Some ''holiday_based''\<rparr>
     \<and> format_city_suggestions ?out = Inr (PList [?a, ?b])"
    using gate_open_example format_two by (rule conjI)
  from weather_attached_behind_gate [THEN conjunct2, THEN conjunct1, THEN mp, OF this,
      of "Some ''key''" text_only service_down]
  obtain qs where
    run: "Tripcrew_run ?today (Some ''key'') text_only service_down
     \<lparr>total_budget = None, budget_range = None,
      start_date = Some ''2025-04-12'', planning_style = Some ''holiday_based''\<rparr> ?out
       = Inr (PList qs)"
    and len: "length qs = length [?a, ?b]"
    and elt: "\<forall>i < length [?a, ?b]. \<exists>kvs. [?a, ?b] ! i = PDict kvs
                \<and> qs ! i =
                    (if truthy (dict_get kvs ''place'' PNone)
                     then PDict (dict_set kvs ''weather''
                            (if truthy (get_current_weather (Some ''key'') text_only service_down
                                          (dict_get kvs ''place'' PNone))
                             then get_current_weather (Some ''key'') text_only service_down
                                    (dict_get kvs ''place'' PNone)
                             else PDict []))
                     else PDict kvs)"
    by blast
  from len obtain p q where qs: "qs = [p, q]"
    by (auto simp: length_Suc_conv)
  from elt [rule_format, of 0] have p: "p = ?a"
    by (simp add: qs dict_get_def)
  from elt [rule_format, of 1] have q: "q = PDict
          [(''place'', PStr ''Goa''),
           (''reason'', PStr ''No reason provided.''),
           (''weather_suitability'', PStr [CHR 0xE2, CHR 0x80, CHR 0x94]),
           (''travel_cost_estimate'', PDict []),
           (''accommodation_range'', PStr [CHR 0xE2, CHR 0x80, CHR 0x94]),
           (''safety_rating'', PStr [CHR 0xE2, CHR 0x80, CHR 0x94]),
           (''accessibility'', PStr [CHR 0xE2, CHR 0x80, CHR 0x94]),
           (''permit_required'', PStr [CHR 0xE2, CHR 0x80, CHR 0x94]),
           (''photos'', PList []),
           (''weather'', PDict [])]"
    by (simp add: qs dict_get_def lookup_fails)
  from unchanged run show ?thesis
    unfolding qs p q by (rule conjI)
qed

text \<open>
  The claim says that a failed lookup leaves the weather slot absent. With the gate
  open and the weather service unreachable, the destination comes back with a
  \<open>weather\<close> slot holding the empty mapping.
\<close>

theorem failed_lookup_stores_empty_mapping:
  \<open>Tripcrew_run \<lparr>year = 2025, month = 4, day = 10\<rparr> (Some ''key'') text_only service_down
     \<lparr>total_budget = None, budget_range = None,
      start_date = Some ''2025-04-12'', planning_style = Some ''holiday_based''\<rparr>
     (PStr ''[{"place": "Hampi"}]'')
   = Inr (PList [PDict
          [(''place'', PStr ''Hampi''),
           (''reason'', PStr ''No reason provided.''),
           (''weather_suitability'', PStr [CHR 0xE2, CHR 0x80, CHR 0x94]),
           (''travel_cost_estimate'', PDict []),
           (''accommodation_range'', PStr [CHR 0xE2, CHR 0x80, CHR 0x94]),
           (''safety_rating'', PStr [CHR 0xE2, CHR 0x80, CHR 0x94]),
           (''accessibility'', PStr [CHR 0xE2, CHR 0x80, CHR 0x94]),
           (''permit_required'', PStr [CHR 0xE2, CHR 0x80, CHR 0x94]),
           (''photos'', PList []),
           (''weather'', PDict [])]])\<close>
proof -
  have \<open>extract_json_in_backticks (PStr ''[{"place": "Hampi"}]'') = PStr ''[{"place": "Hampi"}]''\<close>
    by (simp add: span_eval)
  moreover have
    \<open>json_loads (PStr ''[{"place": "Hampi"}]'') = Inr (PList [PDict [(''place'', PStr ''Hampi'')]])\<close>
    by (simp add: json_eval)
  ultimately have \<open>format_city_suggestions (PStr ''[{"place": "Hampi"}]'') =
     Inr (PList [PDict
          [(''place'', PStr ''Hampi''),
           (''reason'', PStr ''No reason provided.''),
           (''weather_suitability'', PStr [CHR 0xE2, CHR 0x80, CHR 0x94]),
           (''travel_cost_estimate'', PDict []),
           (''accommodation_range'', PStr [CHR 0xE2, CHR 0x80, CHR 0x94]),
           (''safety_rating'', PStr [CHR 0xE2, CHR 0x80, CHR 0x94]),
           (''accessibility'', PStr [CHR 0xE2, CHR 0x80, CHR 0x94]),
           (''permit_required'', PStr [CHR 0xE2, CHR 0x80, CHR 0x94]),
           (''photos'', PList [])]])\<close>
    by (simp add: format_city_suggestions_def py_or_def py_iter_def format_place_def dict_get_def)
  then show ?thesis
    by (simp add: Tripcrew_run_def gate_open_example attach_weather_def lookup_fails
          dict_get_def Let_def)
qed

end
